theory Spec2Isabelle
  imports Complex_Main
begin

section \<open>Data model\<close>

text \<open>
  The module \<^verbatim>\<open>src/ResizableTable.ts\<close> works on an HTML table of the host page. The
  model keeps what the module reads and writes of it:
  \<^item> a cell (\<^verbatim>\<open>td\<close>/\<^verbatim>\<open>th\<close>) with its \<^verbatim>\<open>innerHTML\<close>, \<^verbatim>\<open>colSpan\<close> and \<^verbatim>\<open>rowSpan\<close>;
  \<^item> a row (\<^verbatim>\<open>tr\<close>) with its cells and its inline \<^verbatim>\<open>style.height\<close>;
  \<^item> a table with \<^verbatim>\<open>table.rows\<close>, the children of its \<^verbatim>\<open>colgroup\<close> (when it has one),
    each child being the inline \<^verbatim>\<open>style.width\<close> of a \<^verbatim>\<open>col\<close>, and the table's own
    \<^verbatim>\<open>style.tableLayout\<close> and \<^verbatim>\<open>style.width\<close>.
  An inline pixel length is \<open>Some x\<close> for \<^verbatim>\<open>x + 'px'\<close> and \<open>None\<close> for the empty string.
  JavaScript numbers are idealised as reals; \<open>None\<close> of type \<open>real option\<close> stands for
  \<^verbatim>\<open>NaN\<close> or \<^verbatim>\<open>undefined\<close> where the code can produce one.
  What the browser measures (\<^verbatim>\<open>offsetWidth\<close>, \<^verbatim>\<open>getBoundingClientRect\<close>) is an input,
  the record \<open>layout\<close>, addressed by row index and cell index.
\<close>

datatype dom_error = IndexSizeError | TypeError | RangeError

record ResizableTableOptions =
  handleSize :: real
  minColumnWidth :: real
  minRowHeight :: real
  minTableWidth :: real
  minTableHeight :: real

definition DEFAULTS :: ResizableTableOptions where
  "DEFAULTS = \<lparr>handleSize = 5, minColumnWidth = 30, minRowHeight = 20,
     minTableWidth = 50, minTableHeight = 30\<rparr>"

record cell =
  innerHTML :: string
  colSpan :: nat
  rowSpan :: nat

record row =
  cells :: "cell list"
  style_height :: "real option"

record table =
  rows :: "row list"
  colgroup :: "real option list option"
  tableLayout_fixed :: bool
  style_width :: "real option"

record layout =
  cell_offsetWidth :: "nat \<Rightarrow> nat \<Rightarrow> real"
  cell_rect_right :: "nat \<Rightarrow> nat \<Rightarrow> real"
  cell_rect_bottom :: "nat \<Rightarrow> nat \<Rightarrow> real"
  row_offsetHeight :: "nat \<Rightarrow> real"
  table_offsetWidth :: real
  table_offsetHeight :: real

datatype position = Before | After

section \<open>The DOM methods the module calls\<close>

text \<open>
  \<^verbatim>\<open>HTMLTableRowElement.insertCell(index)\<close>, \<^verbatim>\<open>deleteCell(index)\<close>,
  \<^verbatim>\<open>HTMLTableElement.insertRow(index)\<close> and \<^verbatim>\<open>deleteRow(index)\<close> as the HTML standard
  defines them: an index below \<open>-1\<close> or beyond the collection raises
  \<^verbatim>\<open>IndexSizeError\<close>; \<open>-1\<close> means the end. The index is the integer the method receives
  (a WebIDL \<^verbatim>\<open>long\<close>). \<open>insertCell\<close> and \<open>insertRow\<close> take the element to insert, already
  filled by the caller's next statements.
\<close>

definition insertCell :: "cell list \<Rightarrow> int \<Rightarrow> cell \<Rightarrow> dom_error + cell list" where
  "insertCell cs i td =
     (if i < -1 \<or> i > int (length cs) then Inl IndexSizeError
      else if i = -1 \<or> i = int (length cs) then Inr (cs @ [td])
      else Inr (take (nat i) cs @ td # drop (nat i) cs))"

definition deleteCell :: "cell list \<Rightarrow> int \<Rightarrow> dom_error + cell list" where
  "deleteCell cs i =
     (if i < -1 \<or> i \<ge> int (length cs) then Inl IndexSizeError
      else if i = -1 then Inr (butlast cs)
      else Inr (take (nat i) cs @ drop (Suc (nat i)) cs))"

definition table_insertRow :: "row list \<Rightarrow> int \<Rightarrow> row \<Rightarrow> dom_error + row list" where
  "table_insertRow rs i tr =
     (if i < -1 \<or> i > int (length rs) then Inl IndexSizeError
      else if i = -1 \<or> i = int (length rs) then Inr (rs @ [tr])
      else Inr (take (nat i) rs @ tr # drop (nat i) rs))"

definition table_deleteRow :: "row list \<Rightarrow> int \<Rightarrow> dom_error + row list" where
  "table_deleteRow rs i =
     (if i < -1 \<or> i \<ge> int (length rs) then Inl IndexSizeError
      else if i = -1 then Inr (butlast rs)
      else Inr (take (nat i) rs @ drop (Suc (nat i)) rs))"

text \<open>
  Assigning \<^verbatim>\<open>v + 'px'\<close> to an inline length: a declaration that is not a valid length
  (\<^verbatim>\<open>'NaNpx'\<close>, \<^verbatim>\<open>'undefinedpx'\<close>, a negative length) is dropped and the old value stays.
\<close>

definition set_px :: "real option \<Rightarrow> real option \<Rightarrow> real option" where
  "set_px old v = (case v of None \<Rightarrow> old | Some x \<Rightarrow> if 0 \<le> x then Some x else old)"

section \<open>Geometry helpers\<close>

text \<open>\<^verbatim>\<open>td.colSpan || 1\<close> and \<^verbatim>\<open>td.rowSpan || 1\<close>.\<close>

definition colSpan_or_1 :: "cell \<Rightarrow> nat" where
  "colSpan_or_1 td = (if colSpan td = 0 then 1 else colSpan td)"

definition rowSpan_or_1 :: "cell \<Rightarrow> nat" where
  "rowSpan_or_1 td = (if rowSpan td = 0 then 1 else rowSpan td)"

text \<open>\<^verbatim>\<open>getCellColIndex\<close>: the spans of the previous siblings of cell \<open>c\<close> of row \<open>r\<close>, summed.\<close>

definition getCellColIndex :: "table \<Rightarrow> nat \<Rightarrow> nat \<Rightarrow> nat" where
  "getCellColIndex t r c = sum_list (map colSpan_or_1 (take c (cells (rows t ! r))))"

text \<open>\<^verbatim>\<open>getColumnCount\<close>: the spans of the first row, summed; 0 for a table without rows.\<close>

definition getColumnCount :: "table \<Rightarrow> nat" where
  "getColumnCount t =
     (case rows t of [] \<Rightarrow> 0 | firstRow # _ \<Rightarrow> sum_list (map colSpan_or_1 (cells firstRow)))"

text \<open>\<^verbatim>\<open>getColumnWidths\<close>: each first-row cell contributes its width divided by its span,
  once per spanned column.\<close>

fun widths_of :: "layout \<Rightarrow> nat \<Rightarrow> cell list \<Rightarrow> real list" where
  "widths_of lay i [] = []"
| "widths_of lay i (td # tds) =
     replicate (colSpan_or_1 td) (cell_offsetWidth lay 0 i / real (colSpan_or_1 td))
       @ widths_of lay (Suc i) tds"

definition getColumnWidths :: "layout \<Rightarrow> table \<Rightarrow> real list" where
  "getColumnWidths lay t =
     (case rows t of [] \<Rightarrow> [] | firstRow # _ \<Rightarrow> widths_of lay 0 (cells firstRow))"

definition getRowHeights :: "layout \<Rightarrow> table \<Rightarrow> real list" where
  "getRowHeights lay t = map (row_offsetHeight lay) [0 ..< length (rows t)]"

section \<open>Structural mutation\<close>

text \<open>The cell and the row the mutators create: \<^verbatim>\<open>newCell.innerHTML = '<br>'\<close>.\<close>

definition br_cell :: cell where
  "br_cell = \<lparr>innerHTML = ''<br>'', colSpan = 1, rowSpan = 1\<rparr>"

text \<open>The loop of \<^verbatim>\<open>insertColumn\<close> over \<^verbatim>\<open>table.rows\<close>; an exception ends it.\<close>

fun insertColumn_rows :: "row list \<Rightarrow> int \<Rightarrow> dom_error + row list" where
  "insertColumn_rows [] targetIndex = Inr []"
| "insertColumn_rows (r # rs) targetIndex =
     (case insertCell (cells r) (min targetIndex (int (length (cells r)))) br_cell of
        Inl e \<Rightarrow> Inl e
      | Inr cs \<Rightarrow>
          (case insertColumn_rows rs targetIndex of
             Inl e \<Rightarrow> Inl e
           | Inr rs' \<Rightarrow> Inr (r\<lparr>cells := cs\<rparr> # rs')))"

text \<open>
  \<^verbatim>\<open>colgroup.insertBefore(col, colgroup.children[targetIndex])\<close> in the branch
  \<^verbatim>\<open>targetIndex < colgroup.children.length\<close>: a negative index reads \<^verbatim>\<open>undefined\<close>, which
  \<^verbatim>\<open>insertBefore\<close> takes as \<^verbatim>\<open>null\<close> and appends.
\<close>

definition colgroup_insert :: "real option list \<Rightarrow> int \<Rightarrow> real option \<Rightarrow> real option list" where
  "colgroup_insert cg targetIndex col =
     (if targetIndex < int (length cg)
      then (if 0 \<le> targetIndex
            then take (nat targetIndex) cg @ col # drop (nat targetIndex) cg
            else cg @ [col])
      else cg @ [col])"

definition insertColumn ::
  "ResizableTableOptions \<Rightarrow> layout \<Rightarrow> table \<Rightarrow> int \<Rightarrow> position \<Rightarrow> dom_error + table" where
  "insertColumn opts lay t colIndex pos =
     (let targetIndex = (if pos = After then colIndex + 1 else colIndex) in
      case insertColumn_rows (rows t) targetIndex of
        Inl e \<Rightarrow> Inl e
      | Inr rs \<Rightarrow>
          (case colgroup t of
             None \<Rightarrow> Inr (t\<lparr>rows := rs\<rparr>)
           | Some cg \<Rightarrow>
               Inr (t\<lparr>rows := rs,
                      colgroup := Some (colgroup_insert cg targetIndex
                                          (set_px None (Some (minColumnWidth opts)))),
                      style_width := set_px (style_width t)
                                       (Some (table_offsetWidth lay + minColumnWidth opts))\<rparr>)))"

text \<open>The loop of \<^verbatim>\<open>deleteColumn\<close>: a row with no cell at \<open>colIndex\<close> is skipped.\<close>

fun deleteColumn_rows :: "row list \<Rightarrow> int \<Rightarrow> dom_error + row list" where
  "deleteColumn_rows [] colIndex = Inr []"
| "deleteColumn_rows (r # rs) colIndex =
     (if colIndex < int (length (cells r))
      then (case deleteCell (cells r) colIndex of
              Inl e \<Rightarrow> Inl e
            | Inr cs \<Rightarrow>
                (case deleteColumn_rows rs colIndex of
                   Inl e \<Rightarrow> Inl e
                 | Inr rs' \<Rightarrow> Inr (r\<lparr>cells := cs\<rparr> # rs')))
      else (case deleteColumn_rows rs colIndex of
              Inl e \<Rightarrow> Inl e
            | Inr rs' \<Rightarrow> Inr (r # rs')))"

text \<open>\<^verbatim>\<open>parseInt(col.style.width, 10) || minColumnWidth\<close>: the integer part of the
  length, and the minimum when that is 0 or the width is not set.\<close>

definition parseInt_or :: "real \<Rightarrow> real option \<Rightarrow> real" where
  "parseInt_or dflt w =
     (case w of
        None \<Rightarrow> dflt
      | Some x \<Rightarrow>
          (let n = (if 0 \<le> x then \<lfloor>x\<rfloor> else \<lceil>x\<rceil>)
           in if n = 0 then dflt else real_of_int n))"

definition deleteColumn ::
  "ResizableTableOptions \<Rightarrow> table \<Rightarrow> int \<Rightarrow> dom_error + table" where
  "deleteColumn opts t colIndex =
     (if getColumnCount t \<le> 1 then Inr t
      else
        case deleteColumn_rows (rows t) colIndex of
          Inl e \<Rightarrow> Inl e
        | Inr rs \<Rightarrow>
            (case colgroup t of
               None \<Rightarrow> Inr (t\<lparr>rows := rs\<rparr>)
             | Some cg \<Rightarrow>
                 if colIndex < int (length cg)
                 then (if colIndex < 0 then Inl TypeError
                       else
                         let cg' = take (nat colIndex) cg @ drop (Suc (nat colIndex)) cg;
                             total = sum_list (map (parseInt_or (minColumnWidth opts)) cg')
                         in Inr (t\<lparr>rows := rs, colgroup := Some cg',
                                   style_width := set_px (style_width t) (Some total)\<rparr>))
                 else Inr (t\<lparr>rows := rs\<rparr>)))"

text \<open>\<^verbatim>\<open>insertRow\<close>: a new row of \<open>getColumnCount\<close> blank cells at
  \<^verbatim>\<open>Math.min(targetIndex, table.rows.length)\<close>.\<close>

definition insertRow :: "table \<Rightarrow> int \<Rightarrow> position \<Rightarrow> dom_error + table" where
  "insertRow t rowIndex pos =
     (let targetIndex = (if pos = After then rowIndex + 1 else rowIndex);
          colCount = getColumnCount t;
          newRow = \<lparr>cells = replicate colCount br_cell, style_height = None\<rparr>
      in case table_insertRow (rows t) (min targetIndex (int (length (rows t)))) newRow of
           Inl e \<Rightarrow> Inl e
         | Inr rs \<Rightarrow> Inr (t\<lparr>rows := rs\<rparr>))"

definition deleteRow :: "table \<Rightarrow> int \<Rightarrow> dom_error + table" where
  "deleteRow t rowIndex =
     (if length (rows t) \<le> 1 then Inr t
      else case table_deleteRow (rows t) rowIndex of
             Inl e \<Rightarrow> Inl e
           | Inr rs \<Rightarrow> Inr (t\<lparr>rows := rs\<rparr>))"

section \<open>Hit-testing\<close>

datatype Edge = Col | Row | Corner

text \<open>
  A mouse event carries the pointer position and its target; \<open>target\<close> is the position
  (row index in \<^verbatim>\<open>table.rows\<close>, cell index in the row) of
  \<^verbatim>\<open>e.target.closest('td, th')\<close>, or \<open>None\<close> when the pointer is not inside a cell.
\<close>

record MouseEvent =
  target :: "(nat \<times> nat) option"
  clientX :: real
  clientY :: real

record hit =
  edge :: Edge
  colIndex :: nat
  rowIndex :: nat

record DragState = hit +
  startX :: real
  startY :: real
  colWidths :: "real list"
  rowHeights :: "real list"
  tableWidth :: real
  tableHeight :: real

definition lookup_cell :: "table \<Rightarrow> nat \<Rightarrow> nat \<Rightarrow> cell option" where
  "lookup_cell t r c =
     (if r < length (rows t) \<and> c < length (cells (rows t ! r))
      then Some (cells (rows t ! r) ! c) else None)"

text \<open>
  \<^verbatim>\<open>detectEdge\<close>. \<^verbatim>\<open>getCellRowIndex\<close> is the position of the cell's row in
  \<^verbatim>\<open>table.rows\<close>, here \<open>r\<close>. The two comparisons \<^verbatim>\<open>isLastCol\<close> and \<^verbatim>\<open>isLastRow\<close> are
  on integers, since \<^verbatim>\<open>getColumnCount(table) - 1\<close> is \<open>-1\<close> for an empty first row.
\<close>

definition detectEdge ::
  "ResizableTableOptions \<Rightarrow> layout \<Rightarrow> table \<Rightarrow> MouseEvent \<Rightarrow> hit option" where
  "detectEdge opts lay t e =
     (case target e of
        None \<Rightarrow> None
      | Some (r, c) \<Rightarrow>
          (case lookup_cell t r c of
             None \<Rightarrow> None
           | Some td \<Rightarrow>
               (let hs = handleSize opts;
                    nearRight = (clientX e \<ge> cell_rect_right lay r c - hs);
                    nearBottom = (clientY e \<ge> cell_rect_bottom lay r c - hs)
                in if \<not> nearRight \<and> \<not> nearBottom then None
                   else
                     let ci = getCellColIndex t r c; ri = r in
                     if nearRight \<and> nearBottom then
                       (let isLastCol =
                              (int ci + int (colSpan_or_1 td) - 1 = int (getColumnCount t) - 1);
                            isLastRow =
                              (int ri + int (rowSpan_or_1 td) - 1 = int (length (rows t)) - 1)
                        in if isLastCol \<and> isLastRow
                           then Some \<lparr>edge = Corner, colIndex = ci, rowIndex = ri\<rparr>
                           else Some \<lparr>edge = Col, colIndex = ci + colSpan_or_1 td - 1,
                                       rowIndex = ri\<rparr>)
                     else if nearRight then
                       Some \<lparr>edge = Col, colIndex = ci + colSpan_or_1 td - 1, rowIndex = ri\<rparr>
                     else
                       Some \<lparr>edge = Row, colIndex = ci,
                              rowIndex = ri + rowSpan_or_1 td - 1\<rparr>)))"

section \<open>Applying sizes\<close>

text \<open>\<^verbatim>\<open>applyColumnWidths\<close>: a \<^verbatim>\<open>colgroup\<close> is created when missing, its children are cut
  or padded to \<^verbatim>\<open>widths.length\<close>, then each child gets its width.\<close>

definition sync_cols :: "real option list \<Rightarrow> nat \<Rightarrow> real option list" where
  "sync_cols cg n = take n cg @ replicate (n - length cg) None"

definition applyColumnWidths :: "table \<Rightarrow> real list \<Rightarrow> table" where
  "applyColumnWidths t widths =
     (let cg = (case colgroup t of None \<Rightarrow> [] | Some cg \<Rightarrow> cg);
          cg' = sync_cols cg (length widths)
      in t\<lparr>tableLayout_fixed := True,
            style_width := set_px (style_width t) (Some (sum_list widths)),
            colgroup := Some (map2 (\<lambda>col w. set_px col (Some w)) cg' widths)\<rparr>)"

text \<open>\<^verbatim>\<open>applyRowHeights\<close>: rows and heights are walked together, up to the shorter.\<close>

fun applyRowHeights_rows :: "row list \<Rightarrow> real option list \<Rightarrow> row list" where
  "applyRowHeights_rows (r # rs) (h # hs) =
     r\<lparr>style_height := set_px (style_height r) h\<rparr> # applyRowHeights_rows rs hs"
| "applyRowHeights_rows rs [] = rs"
| "applyRowHeights_rows [] hs = []"

definition applyRowHeights :: "table \<Rightarrow> real option list \<Rightarrow> table" where
  "applyRowHeights t heights = t\<lparr>rows := applyRowHeights_rows (rows t) heights\<rparr>"

text \<open>
  \<^verbatim>\<open>resizeColumnDirect\<close>: the \<^verbatim>\<open>colgroup\<close> is created from the measured widths when
  missing, padded with empty \<^verbatim>\<open>col\<close>s up to \<open>colIndex + 1\<close>, the one width is set, and
  the table's width becomes the sum of the widths that are set.
\<close>

definition resizeColumnDirect :: "layout \<Rightarrow> table \<Rightarrow> nat \<Rightarrow> real option \<Rightarrow> table" where
  "resizeColumnDirect lay t ci newWidth =
     (let cg0 = (case colgroup t of
                   Some cg \<Rightarrow> cg
                 | None \<Rightarrow> map (\<lambda>w. set_px None (Some w)) (getColumnWidths lay t));
          cg1 = cg0 @ replicate (ci + 1 - length cg0) None;
          cg2 = cg1[ci := set_px (cg1 ! ci) newWidth];
          totalWidth = sum_list (map (\<lambda>w. case w of Some x \<Rightarrow> x | None \<Rightarrow> 0) cg2)
      in t\<lparr>tableLayout_fixed := True, colgroup := Some cg2,
            style_width := set_px (style_width t) (Some totalWidth)\<rparr>)"

section \<open>Context menu\<close>

datatype action =
  InsertColumn nat position
| DeleteColumn nat
| InsertRow nat position
| DeleteRow nat
| DeleteTable

record item =
  label :: string
  action :: action
  dividerAfter :: bool
  disabled :: bool

text \<open>A child of the menu element: an entry of class \<^verbatim>\<open>qrt-context-menu-item\<close> with its
  label, whether it also has class \<^verbatim>\<open>qrt-disabled\<close>, and its \<^verbatim>\<open>mousedown\<close> listener (none
  on a disabled entry); or a divider.\<close>

datatype menu_child = MenuItem string bool "action option" | MenuDivider

record menu =
  menu_left :: real
  menu_top :: real
  menu_children :: "menu_child list"

section \<open>Instance state\<close>

record plugin =
  drag :: "DragState option"
  overlay :: bool
  contextMenu :: "menu option"
  contextCell :: "(nat \<times> nat) option"

definition dismissContextMenu :: "plugin \<Rightarrow> plugin" where
  "dismissContextMenu st =
     (case contextMenu st of
        None \<Rightarrow> st
      | Some m \<Rightarrow> st\<lparr>contextMenu := None, contextCell := None\<rparr>)"

definition menu_items :: "table \<Rightarrow> nat \<Rightarrow> nat \<Rightarrow> item list" where
  "menu_items t r c =
     (let ci = getCellColIndex t r c; ri = r;
          colCount = getColumnCount t; rowCount = length (rows t)
      in [\<lparr>label = ''Insert Column Left'', action = InsertColumn ci Before,
            dividerAfter = False, disabled = False\<rparr>,
          \<lparr>label = ''Insert Column Right'', action = InsertColumn ci After,
            dividerAfter = False, disabled = False\<rparr>,
          \<lparr>label = ''Delete Column'', action = DeleteColumn ci,
            dividerAfter = True, disabled = (colCount \<le> 1)\<rparr>,
          \<lparr>label = ''Insert Row Above'', action = InsertRow ri Before,
            dividerAfter = False, disabled = False\<rparr>,
          \<lparr>label = ''Insert Row Below'', action = InsertRow ri After,
            dividerAfter = False, disabled = False\<rparr>,
          \<lparr>label = ''Delete Row'', action = DeleteRow ri,
            dividerAfter = True, disabled = (rowCount \<le> 1)\<rparr>,
          \<lparr>label = ''Delete Table'', action = DeleteTable,
            dividerAfter = False, disabled = False\<rparr>])"

definition render_item :: "item \<Rightarrow> menu_child list" where
  "render_item it =
     MenuItem (label it) (disabled it) (if disabled it then None else Some (action it))
       # (if dividerAfter it then [MenuDivider] else [])"

definition showContextMenu ::
  "real \<Rightarrow> real \<Rightarrow> nat \<Rightarrow> nat \<Rightarrow> table \<Rightarrow> plugin \<Rightarrow> plugin" where
  "showContextMenu x y r c t st =
     (dismissContextMenu st)
       \<lparr>contextMenu := Some \<lparr>menu_left = x, menu_top = y,
                              menu_children = concat (map render_item (menu_items t r c))\<rparr>\<rparr>"

definition onContextMenu :: "table \<Rightarrow> plugin \<Rightarrow> MouseEvent \<Rightarrow> plugin" where
  "onContextMenu t st e =
     (case target e of
        None \<Rightarrow> st
      | Some (r, c) \<Rightarrow>
          (case lookup_cell t r c of
             None \<Rightarrow> st
           | Some td \<Rightarrow>
               showContextMenu (clientX e) (clientY e) r c t (st\<lparr>contextCell := Some (r, c)\<rparr>)))"

text \<open>What a menu entry's action does to the table; \<open>None\<close> is the table removed from the
  document by \<^verbatim>\<open>deleteTable\<close>.\<close>

definition run_action ::
  "ResizableTableOptions \<Rightarrow> layout \<Rightarrow> table \<Rightarrow> action \<Rightarrow> dom_error + table option" where
  "run_action opts lay t a =
     (case a of
        InsertColumn ci pos \<Rightarrow> map_sum id Some (insertColumn opts lay t (int ci) pos)
      | DeleteColumn ci \<Rightarrow> map_sum id Some (deleteColumn opts t (int ci))
      | InsertRow ri pos \<Rightarrow> map_sum id Some (insertRow t (int ri) pos)
      | DeleteRow ri \<Rightarrow> map_sum id Some (deleteRow t (int ri))
      | DeleteTable \<Rightarrow> Inr None)"

text \<open>The \<^verbatim>\<open>mousedown\<close> listener of the \<open>k\<close>-th child of the open menu: the action, then
  \<^verbatim>\<open>dismissContextMenu\<close>. A child without a listener does nothing.\<close>

definition item_mousedown ::
  "ResizableTableOptions \<Rightarrow> layout \<Rightarrow> table \<Rightarrow> plugin \<Rightarrow> nat
     \<Rightarrow> dom_error + (table option \<times> plugin)" where
  "item_mousedown opts lay t st k =
     (case contextMenu st of
        None \<Rightarrow> Inr (Some t, st)
      | Some m \<Rightarrow>
          if k < length (menu_children m) then
            (case menu_children m ! k of
               MenuItem l d (Some a) \<Rightarrow>
                 (case run_action opts lay t a of
                    Inl e \<Rightarrow> Inl e
                  | Inr t' \<Rightarrow> Inr (t', dismissContextMenu st))
             | _ \<Rightarrow> Inr (Some t, st))
          else Inr (Some t, st))"

section \<open>Drag session\<close>

definition onEditorMouseDown ::
  "ResizableTableOptions \<Rightarrow> layout \<Rightarrow> table \<Rightarrow> plugin \<Rightarrow> MouseEvent \<Rightarrow> table \<times> plugin" where
  "onEditorMouseDown opts lay t st e =
     (case detectEdge opts lay t e of
        None \<Rightarrow> (t, st)
      | Some h \<Rightarrow>
          (let cws = getColumnWidths lay t;
               rhs = getRowHeights lay t;
               d = \<lparr>edge = edge h, colIndex = colIndex h, rowIndex = rowIndex h,
                    startX = clientX e, startY = clientY e,
                    colWidths = cws, rowHeights = rhs,
                    tableWidth = table_offsetWidth lay, tableHeight = table_offsetHeight lay\<rparr>
           in (applyRowHeights (applyColumnWidths t cws) (map Some rhs),
               st\<lparr>drag := Some d, overlay := True\<rparr>)))"

text \<open>Reading \<^verbatim>\<open>xs[i]\<close> (\<^verbatim>\<open>undefined\<close> out of range) and writing \<^verbatim>\<open>xs[i] = v\<close> (the array
  grows, with holes) on a JavaScript array.\<close>

definition js_get :: "real list \<Rightarrow> nat \<Rightarrow> real option" where
  "js_get xs i = (if i < length xs then Some (xs ! i) else None)"

definition js_set :: "real option list \<Rightarrow> nat \<Rightarrow> real option \<Rightarrow> real option list" where
  "js_set xs i v =
     (if i < length xs then xs[i := v] else xs @ replicate (i - length xs) None @ [v])"

text \<open>\<^verbatim>\<open>Math.max(m, x + d)\<close>, which is \<^verbatim>\<open>NaN\<close> when \<^verbatim>\<open>x\<close> is \<^verbatim>\<open>undefined\<close>.\<close>

definition clamp_min :: "real \<Rightarrow> real option \<Rightarrow> real \<Rightarrow> real option" where
  "clamp_min m x d = (case x of None \<Rightarrow> None | Some v \<Rightarrow> Some (max m (v + d)))"

definition onDocumentMouseMove ::
  "ResizableTableOptions \<Rightarrow> layout \<Rightarrow> table \<Rightarrow> plugin \<Rightarrow> MouseEvent \<Rightarrow> table" where
  "onDocumentMouseMove opts lay t st e =
     (case drag st of
        None \<Rightarrow> t
      | Some d \<Rightarrow>
          (let dx = clientX e - startX d;
               dy = clientY e - startY d;
               t1 = (if edge d = Col \<or> edge d = Corner
                     then resizeColumnDirect lay t (colIndex d)
                            (clamp_min (minColumnWidth opts) (js_get (colWidths d) (colIndex d)) dx)
                     else t);
               t2 = (if edge d = Row \<or> edge d = Corner
                     then (let newHeight =
                                 clamp_min (minRowHeight opts)
                                   (js_get (rowHeights d) (rowIndex d)) dy;
                               updated = js_set (map Some (rowHeights d)) (rowIndex d) newHeight
                           in applyRowHeights t1 updated)
                     else t1)
           in t2))"

definition onDocumentMouseUp :: "plugin \<Rightarrow> plugin" where
  "onDocumentMouseUp st = st\<lparr>drag := None, overlay := False\<rparr>"

section \<open>Table creation\<close>

text \<open>
  The host editor, as far as \<^verbatim>\<open>insertNewTable\<close> uses it: \<open>getSelection\<close> is \<open>None\<close> when
  the editor has no such method, \<open>Some None\<close> when it returns \<^verbatim>\<open>null\<close>, and the range's
  index otherwise; \<open>pasted\<close> records the calls of \<^verbatim>\<open>clipboard.dangerouslyPasteHTML\<close>, the
  only way the module writes to the document.
\<close>

record quill =
  getSelection :: "nat option option"
  pasted :: "(nat \<times> string) list"

text \<open>\<^verbatim>\<open>String.prototype.repeat\<close>: a negative count raises \<^verbatim>\<open>RangeError\<close>.\<close>

definition repeat :: "string \<Rightarrow> int \<Rightarrow> dom_error + string" where
  "repeat s n = (if n < 0 then Inl RangeError else Inr (concat (replicate (nat n) s)))"

definition dangerouslyPasteHTML :: "quill \<Rightarrow> nat \<Rightarrow> string \<Rightarrow> quill" where
  "dangerouslyPasteHTML q i html = q\<lparr>pasted := pasted q @ [(i, html)]\<rparr>"

definition insertNewTable :: "quill \<Rightarrow> int \<Rightarrow> int \<Rightarrow> dom_error + quill" where
  "insertNewTable q n_rows n_cols =
     (case getSelection q of
        None \<Rightarrow> Inr q
      | Some None \<Rightarrow> Inr q
      | Some (Some i) \<Rightarrow>
          (let cellHTML = ''<td><br></td>'' in
           case repeat cellHTML n_cols of
             Inl e \<Rightarrow> Inl e
           | Inr cs \<Rightarrow>
               (let rowHTML = ''<tr>'' @ cs @ ''</tr>'' in
                case repeat rowHTML n_rows of
                  Inl e \<Rightarrow> Inl e
                | Inr rs \<Rightarrow>
                    (let tableHTML = ''<table><tbody>'' @ rs @ ''</tbody></table>''
                     in Inr (dangerouslyPasteHTML q i tableHTML)))))"

text \<open>The call without arguments: \<^verbatim>\<open>rows = 3, cols = 3\<close>.\<close>

definition insertNewTable_default :: "quill \<Rightarrow> dom_error + quill" where
  "insertNewTable_default q = insertNewTable q 3 3"

text \<open>Reading markup back: the names of the tags of a string, in order.\<close>

fun scan_tags :: "string option \<Rightarrow> string \<Rightarrow> string list" where
  "scan_tags None [] = []"
| "scan_tags None (c # cs) =
     (if c = CHR ''<'' then scan_tags (Some []) cs else scan_tags None cs)"
| "scan_tags (Some acc) [] = []"
| "scan_tags (Some acc) (c # cs) =
     (if c = CHR ''>'' then rev acc # scan_tags None cs else scan_tags (Some (c # acc)) cs)"

definition markup_tags :: "string \<Rightarrow> string list" where
  "markup_tags s = scan_tags None s"

section \<open>Sample tables\<close>

text \<open>
  The table of the repository's tests (\<^verbatim>\<open>createTable\<close>: two rows ``A1 B1 C1'' and
  ``A2 B2 C2'') and their stubbed geometry (\<^verbatim>\<open>stubCellGeometry\<close>: every cell
  \<open>cellWidth\<close> by \<open>cellHeight\<close>, laid out as a grid), a table whose second row is
  longer than its first, a table whose first row is one cell spanning two columns (before
  and after its second column is deleted), a table with merged cells (``H'' over two
  columns and ``B'' over two rows, above ``C'' over two columns), and a table of one column.
\<close>

definition text_cell :: "string \<Rightarrow> cell" where
  "text_cell s = \<lparr>innerHTML = s, colSpan = 1, rowSpan = 1\<rparr>"

definition createTable :: table where
  "createTable =
     \<lparr>rows = [\<lparr>cells = [text_cell ''A1'', text_cell ''B1'', text_cell ''C1''], style_height = None\<rparr>,
              \<lparr>cells = [text_cell ''A2'', text_cell ''B2'', text_cell ''C2''], style_height = None\<rparr>],
      colgroup = None, tableLayout_fixed = False, style_width = None\<rparr>"

definition stubCellGeometry :: "table \<Rightarrow> real \<Rightarrow> real \<Rightarrow> layout" where
  "stubCellGeometry t cellWidth cellHeight =
     \<lparr>cell_offsetWidth = (\<lambda>r c. cellWidth),
      cell_rect_right = (\<lambda>r c. real c * cellWidth + cellWidth),
      cell_rect_bottom = (\<lambda>r c. real r * cellHeight + cellHeight),
      row_offsetHeight = (\<lambda>r. cellHeight),
      table_offsetWidth =
        real (case rows t of [] \<Rightarrow> 0 | firstRow # _ \<Rightarrow> length (cells firstRow)) * cellWidth,
      table_offsetHeight = real (length (rows t)) * cellHeight\<rparr>"

definition ragged_table :: table where
  "ragged_table =
     \<lparr>rows = [\<lparr>cells = [text_cell ''A1'', text_cell ''B1''], style_height = None\<rparr>,
              \<lparr>cells = [text_cell ''A2'', text_cell ''B2'', text_cell ''C2''], style_height = None\<rparr>],
      colgroup = None, tableLayout_fixed = False, style_width = None\<rparr>"

definition spanned_table :: table where
  "spanned_table =
     \<lparr>rows = [\<lparr>cells = [\<lparr>innerHTML = ''Header'', colSpan = 2, rowSpan = 1\<rparr>], style_height = None\<rparr>,
              \<lparr>cells = [text_cell ''A2'', text_cell ''B2''], style_height = None\<rparr>],
      colgroup = None, tableLayout_fixed = False, style_width = None\<rparr>"

definition spanned_table_deleted :: table where
  "spanned_table_deleted =
     \<lparr>rows = [\<lparr>cells = [\<lparr>innerHTML = ''Header'', colSpan = 2, rowSpan = 1\<rparr>], style_height = None\<rparr>,
              \<lparr>cells = [text_cell ''A2''], style_height = None\<rparr>],
      colgroup = None, tableLayout_fixed = False, style_width = None\<rparr>"

definition merged_table :: table where
  "merged_table =
     \<lparr>rows = [\<lparr>cells = [\<lparr>innerHTML = ''H'', colSpan = 2, rowSpan = 1\<rparr>,
                       \<lparr>innerHTML = ''B'', colSpan = 1, rowSpan = 2\<rparr>], style_height = None\<rparr>,
              \<lparr>cells = [\<lparr>innerHTML = ''C'', colSpan = 2, rowSpan = 1\<rparr>], style_height = None\<rparr>],
      colgroup = None, tableLayout_fixed = False, style_width = None\<rparr>"

definition one_column_table :: table where
  "one_column_table =
     \<lparr>rows = [\<lparr>cells = [text_cell ''C1''], style_height = None\<rparr>,
              \<lparr>cells = [text_cell ''C2''], style_height = None\<rparr>],
      colgroup = None, tableLayout_fixed = False, style_width = None\<rparr>"

text \<open>The state of a fresh instance, a mouse event outside every cell (as the tests fire
  on the document element during a drag), and a mouse event over cell \<open>c\<close> of row \<open>r\<close>.\<close>

definition idle :: plugin where
  "idle = \<lparr>drag = None, overlay = False, contextMenu = None, contextCell = None\<rparr>"

definition mouse_elsewhere :: "real \<Rightarrow> real \<Rightarrow> MouseEvent" where
  "mouse_elsewhere x y = \<lparr>target = None, clientX = x, clientY = y\<rparr>"

definition mouse_at :: "nat \<Rightarrow> nat \<Rightarrow> real \<Rightarrow> real \<Rightarrow> MouseEvent" where
  "mouse_at r c x y = \<lparr>target = Some (r, c), clientX = x, clientY = y\<rparr>"

text \<open>Host editors: one with the cursor at index \<open>i\<close>, one whose \<^verbatim>\<open>getSelection\<close>
  returns \<^verbatim>\<open>null\<close>, and the mock of the tests (\<^verbatim>\<open>createMockQuill\<close>), which has no
  \<^verbatim>\<open>getSelection\<close> at all.\<close>

definition quill_with_selection :: "nat \<Rightarrow> quill" where
  "quill_with_selection i = \<lparr>getSelection = Some (Some i), pasted = []\<rparr>"

definition quill_without_selection :: quill where
  "quill_without_selection = \<lparr>getSelection = Some None, pasted = []\<rparr>"

definition createMockQuill :: quill where
  "createMockQuill = \<lparr>getSelection = None, pasted = []\<rparr>"

section \<open>Invariant and readings used in the properties\<close>

text \<open>The overlay invariant of the specification: a \<^verbatim>\<open>colgroup\<close>, when present, has as
  many children as the table has visual columns.\<close>

definition colgroup_invariant :: "table \<Rightarrow> bool" where
  "colgroup_invariant t =
     (case colgroup t of None \<Rightarrow> True | Some cg \<Rightarrow> length cg = getColumnCount t)"

text \<open>Every cell of the first row spans one column.\<close>

definition plain_first_row :: "table \<Rightarrow> bool" where
  "plain_first_row t =
     (case rows t of [] \<Rightarrow> True | firstRow # _ \<Rightarrow> list_all (\<lambda>td. colSpan_or_1 td = 1) (cells firstRow))"

text \<open>
  The specification's reading of a cell's place in the grid, written out on the data
  and independent of the helpers above. A cell spans the number of columns (rows) its
  \<^verbatim>\<open>colspan\<close> (\<^verbatim>\<open>rowspan\<close>) says, and at least one. The visual columns of a row are the
  column spans of its cells, summed; the visual column index of a cell is the sum of the
  column spans of the cells before it in its row.
\<close>

definition spec_span :: "nat \<Rightarrow> nat" where
  "spec_span n = max 1 n"

fun spec_columns :: "cell list \<Rightarrow> nat" where
  "spec_columns [] = 0"
| "spec_columns (td # tds) = spec_span (colSpan td) + spec_columns tds"

fun spec_column_index :: "cell list \<Rightarrow> nat \<Rightarrow> nat" where
  "spec_column_index [] c = 0"
| "spec_column_index (td # tds) 0 = 0"
| "spec_column_index (td # tds) (Suc c) = spec_span (colSpan td) + spec_column_index tds c"

text \<open>A cell ends in the last visual column when it is a cell of the table and the columns
  it spans, starting at its visual column index, end where the visual columns of the first
  row end; it ends in the last row when the rows it spans end with the table.\<close>

definition ends_in_last_column :: "table \<Rightarrow> nat \<Rightarrow> nat \<Rightarrow> bool" where
  "ends_in_last_column t r c =
     (case rows t of
        [] \<Rightarrow> False
      | firstRow # _ \<Rightarrow>
          r < length (rows t) \<and> c < length (cells (rows t ! r)) \<and>
          spec_column_index (cells (rows t ! r)) c + spec_span (colSpan (cells (rows t ! r) ! c))
            = spec_columns (cells firstRow))"

definition ends_in_last_row :: "table \<Rightarrow> nat \<Rightarrow> nat \<Rightarrow> bool" where
  "ends_in_last_row t r c =
     (r < length (rows t) \<and> c < length (cells (rows t ! r)) \<and>
      r + spec_span (rowSpan (cells (rows t ! r) ! c)) = length (rows t))"

text \<open>The label and the disabled flag of the entries of a menu, dividers left out.\<close>

definition menu_entries :: "menu \<Rightarrow> (string \<times> bool) list" where
  "menu_entries m =
     concat (map (\<lambda>ch. case ch of MenuItem l d a \<Rightarrow> [(l, d)] | MenuDivider \<Rightarrow> [])
                 (menu_children m))"

section \<open>Lemmas\<close>

lemma insertCell_clamped:
  "0 \<le> k \<Longrightarrow> insertCell cs (min k (int (length cs))) td
     = Inr (take (min (nat k) (length cs)) cs @ td # drop (min (nat k) (length cs)) cs)"
  by (auto simp: insertCell_def min_def)

lemma insertColumn_rows_ok:
  "0 \<le> k \<Longrightarrow> insertColumn_rows rs k
     = Inr (map (\<lambda>r. r\<lparr>cells := take (min (nat k) (length (cells r))) (cells r)
                    @ br_cell # drop (min (nat k) (length (cells r))) (cells r)\<rparr>) rs)"
  by (induction rs) (simp_all add: insertCell_clamped)

lemma deleteCell_in_range:
  "0 \<le> k \<Longrightarrow> k < int (length cs) \<Longrightarrow> deleteCell cs k = Inr (take (nat k) cs @ drop (Suc (nat k)) cs)"
  by (auto simp: deleteCell_def)

lemma deleteColumn_rows_ok:
  "0 \<le> k \<Longrightarrow> deleteColumn_rows rs k
     = Inr (map (\<lambda>r. if nat k < length (cells r)
                      then r\<lparr>cells := take (nat k) (cells r) @ drop (Suc (nat k)) (cells r)\<rparr>
                      else r) rs)"
proof (induction rs)
  case Nil
  then show ?case by simp
next
  case (Cons r rs)
  show ?case
  proof (cases "k < int (length (cells r))")
    case True
    with Cons show ?thesis by (simp add: deleteCell_in_range) 
  next
    case False
    with Cons show ?thesis by simp 
  qed
qed

lemma colgroup_insert_clamped:
  "0 \<le> k \<Longrightarrow> colgroup_insert cg k col
     = take (min (nat k) (length cg)) cg @ col # drop (min (nat k) (length cg)) cg"
  by (auto simp: colgroup_insert_def min_def)

lemma sum_list_without_nth:
  fixes f :: "'a \<Rightarrow> nat"
  assumes "k < length xs"
  shows "sum_list (map f (take k xs @ drop (Suc k) xs)) + f (xs ! k) = sum_list (map f xs)"
proof -
  have "xs = take k xs @ xs ! k # drop (Suc k) xs"
    using assms by (rule id_take_nth_drop)
  then have "sum_list (map f xs) = sum_list (map f (take k xs @ xs ! k # drop (Suc k) xs))"
    by simp
  then show ?thesis by simp
qed

lemma deleteColumn_rows_of:
  assumes "0 \<le> i" and "1 < getColumnCount t"
  shows "\<exists>t'. deleteColumn opts t i = Inr t' \<and>
           rows t' = map (\<lambda>r. if nat i < length (cells r)
                               then r\<lparr>cells := take (nat i) (cells r) @ drop (Suc (nat i)) (cells r)\<rparr>
                               else r) (rows t)"
proof (cases "colgroup t")
  case None
  with assms show ?thesis by (simp add: deleteColumn_def deleteColumn_rows_ok)
next
  case (Some cg)
  with assms show ?thesis
    by (cases "i < int (length cg)") (simp_all add: deleteColumn_def deleteColumn_rows_ok Let_def)
qed

lemma length_widths_of: "length (widths_of lay i tds) = sum_list (map colSpan_or_1 tds)"
  by (induction tds arbitrary: i) simp_all

lemma length_getColumnWidths: "length (getColumnWidths lay t) = getColumnCount t"
  by (simp add: getColumnWidths_def getColumnCount_def length_widths_of split: list.splits)

lemma length_sync_cols: "length (sync_cols cg n) = n"
  by (simp add: sync_cols_def)

lemma colgroup_applyColumnWidths:
  "\<exists>cg. colgroup (applyColumnWidths t ws) = Some cg \<and> length cg = length ws"
  by (simp add: applyColumnWidths_def Let_def length_sync_cols)

lemma rows_applyColumnWidths: "rows (applyColumnWidths t ws) = rows t"
  by (simp add: applyColumnWidths_def Let_def)

lemma cells_applyRowHeights_rows:
  "map cells (applyRowHeights_rows rs hs) = map cells rs"
  by (induction rs hs rule: applyRowHeights_rows.induct) simp_all

lemma getColumnCount_cells:
  "map cells (rows t') = map cells (rows t) \<Longrightarrow> getColumnCount t' = getColumnCount t"
  by (cases "rows t"; cases "rows t'") (simp_all add: getColumnCount_def)

lemma getColumnCount_applyRowHeights: "getColumnCount (applyRowHeights t hs) = getColumnCount t"
  by (rule getColumnCount_cells) (simp add: applyRowHeights_def cells_applyRowHeights_rows)

lemma colgroup_applyRowHeights: "colgroup (applyRowHeights t hs) = colgroup t"
  by (simp add: applyRowHeights_def)

lemma colgroup_resizeColumnDirect:
  "\<exists>cg. colgroup (resizeColumnDirect lay t ci w) = Some cg \<and>
        length cg = max (ci + 1)
          (case colgroup t of Some cg0 \<Rightarrow> length cg0 | None \<Rightarrow> getColumnCount t)"
  by (cases "colgroup t") (auto simp: resizeColumnDirect_def Let_def length_getColumnWidths)

lemma rows_resizeColumnDirect: "rows (resizeColumnDirect lay t ci w) = rows t"
  by (simp add: resizeColumnDirect_def Let_def)

lemma invariant_mouse_down:
  assumes "detectEdge opts lay t e \<noteq> None"
  shows "colgroup (fst (onEditorMouseDown opts lay t st e)) \<noteq> None \<and>
         colgroup_invariant (fst (onEditorMouseDown opts lay t st e))"
proof -
  from assms obtain h where h: "detectEdge opts lay t e = Some h" by blast
  obtain cg where cg: "colgroup (applyColumnWidths t (getColumnWidths lay t)) = Some cg"
    "length cg = length (getColumnWidths lay t)"
    using colgroup_applyColumnWidths by blast
  have "getColumnCount (applyColumnWidths t (getColumnWidths lay t)) = getColumnCount t"
    by (rule getColumnCount_cells) (simp add: rows_applyColumnWidths)
  with h cg show ?thesis
    by (simp add: onEditorMouseDown_def Let_def colgroup_invariant_def
          colgroup_applyRowHeights getColumnCount_applyRowHeights length_getColumnWidths)
qed

lemma invariant_resize:
  assumes "colgroup_invariant t" and "ci < getColumnCount t"
  shows "colgroup_invariant (resizeColumnDirect lay t ci w)"
proof -
  obtain cg where cg: "colgroup (resizeColumnDirect lay t ci w) = Some cg"
    "length cg = max (ci + 1) (case colgroup t of Some cg0 \<Rightarrow> length cg0 | None \<Rightarrow> getColumnCount t)"
    using colgroup_resizeColumnDirect by blast
  have "getColumnCount (resizeColumnDirect lay t ci w) = getColumnCount t"
    by (rule getColumnCount_cells) (simp add: rows_resizeColumnDirect)
  moreover have "(case colgroup t of Some cg0 \<Rightarrow> length cg0 | None \<Rightarrow> getColumnCount t) = getColumnCount t"
    using assms(1) by (simp add: colgroup_invariant_def split: option.splits)
  ultimately show ?thesis using cg assms(2) by (simp add: colgroup_invariant_def)
qed

lemma insertColumn_ok:
  assumes "0 \<le> i"
  shows "\<exists>t'. insertColumn opts lay t i pos = Inr t' \<and>
           rows t' = map (\<lambda>r. r\<lparr>cells :=
                        take (min (nat (if pos = After then i + 1 else i)) (length (cells r))) (cells r)
                          @ br_cell
                          # drop (min (nat (if pos = After then i + 1 else i)) (length (cells r))) (cells r)\<rparr>)
                      (rows t) \<and>
           (colgroup t = None \<longrightarrow> colgroup t' = None) \<and>
           (\<forall>cg. colgroup t = Some cg \<longrightarrow> (\<exists>cg'. colgroup t' = Some cg' \<and> length cg' = length cg + 1))"
proof -
  define k where "k = (if pos = After then i + 1 else i)"
  have k: "0 \<le> k" using assms by (simp add: k_def)
  show ?thesis
    unfolding k_def[symmetric]
    by (cases "colgroup t")
       (simp_all add: insertColumn_def k_def[symmetric] insertColumn_rows_ok[OF k]
          colgroup_insert_clamped[OF k])
qed

lemma sum_list_with_inserted:
  fixes f :: "'a \<Rightarrow> nat"
  shows "sum_list (map f (take n xs @ x # drop n xs)) = sum_list (map f xs) + f x"
proof -
  have "sum_list (map f (take n xs)) + sum_list (map f (drop n xs)) = sum_list (map f xs)"
    by (metis append_take_drop_id map_append sum_list_append)
  then show ?thesis by simp
qed

lemma invariant_insertColumn:
  assumes "colgroup_invariant t" and "rows t \<noteq> []" and "0 \<le> i"
  shows "\<exists>t'. insertColumn opts lay t i pos = Inr t' \<and> colgroup_invariant t'"
proof -
  obtain r rs where rows: "rows t = r # rs" using assms(2) by (cases "rows t") auto
  from insertColumn_ok[OF assms(3), of opts lay t pos] obtain t' where
    all: "insertColumn opts lay t i pos = Inr t' \<and>
           rows t' = map (\<lambda>r. r\<lparr>cells :=
                        take (min (nat (if pos = After then i + 1 else i)) (length (cells r))) (cells r)
                          @ br_cell
                          # drop (min (nat (if pos = After then i + 1 else i)) (length (cells r))) (cells r)\<rparr>)
                      (rows t) \<and>
           (colgroup t = None \<longrightarrow> colgroup t' = None) \<and>
           (\<forall>cg. colgroup t = Some cg \<longrightarrow> (\<exists>cg'. colgroup t' = Some cg' \<and> length cg' = length cg + 1))" ..
  from all have eq: "insertColumn opts lay t i pos = Inr t'" by (rule conjunct1)
  from all have rs: "rows t' = map (\<lambda>r. r\<lparr>cells :=
                        take (min (nat (if pos = After then i + 1 else i)) (length (cells r))) (cells r)
                          @ br_cell
                          # drop (min (nat (if pos = After then i + 1 else i)) (length (cells r))) (cells r)\<rparr>)
                      (rows t)" by simp
  from all have none: "colgroup t = None \<longrightarrow> colgroup t' = None" by simp
  from all have some: "\<forall>cg. colgroup t = Some cg \<longrightarrow> (\<exists>cg'. colgroup t' = Some cg' \<and> length cg' = length cg + 1)"
    by simp
  have cnt: "getColumnCount t' = getColumnCount t + 1"
    using rows rs
    by (simp add: getColumnCount_def sum_list_with_inserted colSpan_or_1_def br_cell_def
          del: sum_list_append map_append)
  have "colgroup_invariant t'"
  proof (cases "colgroup t")
    case None
    with none show ?thesis by (simp add: colgroup_invariant_def)
  next
    case (Some cg)
    with some obtain cg' where "colgroup t' = Some cg'" "length cg' = length cg + 1" by blast
    with Some assms(1) cnt show ?thesis by (simp add: colgroup_invariant_def)
  qed
  with eq show ?thesis by blast
qed

lemma sum_list_all_one:
  fixes f :: "'a \<Rightarrow> nat"
  shows "\<forall>x \<in> set xs. f x = 1 \<Longrightarrow> sum_list (map f xs) = length xs"
  by (induction xs) simp_all

lemma invariant_deleteColumn:
  assumes inv: "colgroup_invariant t" and plain: "plain_first_row t" and i: "0 \<le> i"
  shows "\<exists>t'. deleteColumn opts t i = Inr t' \<and> colgroup_invariant t'"
proof (cases "1 < getColumnCount t")
  case False
  with inv show ?thesis by (simp add: deleteColumn_def)
next
  case True
  then obtain r rs where rows: "rows t = r # rs"
    by (cases "rows t") (auto simp: getColumnCount_def)
  from plain rows have all1: "\<forall>td \<in> set (cells r). colSpan_or_1 td = 1"
    by (simp add: plain_first_row_def list_all_iff)
  then have n: "getColumnCount t = length (cells r)"
    using rows by (simp add: getColumnCount_def sum_list_all_one)
  from deleteColumn_rows_of[OF i True, of opts] obtain t' where
    eq: "deleteColumn opts t i = Inr t'" and
    rs: "rows t' = map (\<lambda>r. if nat i < length (cells r)
                               then r\<lparr>cells := take (nat i) (cells r) @ drop (Suc (nat i)) (cells r)\<rparr>
                               else r) (rows t)"
    by blast
  have all1': "\<forall>td \<in> set (take (nat i) (cells r) @ drop (Suc (nat i)) (cells r)). colSpan_or_1 td = 1"
    using all1 by (auto dest: in_set_takeD in_set_dropD)
  have n': "getColumnCount t' = (if nat i < length (cells r) then length (cells r) - 1 else length (cells r))"
    using rows rs all1 all1'
    by (auto simp: getColumnCount_def sum_list_all_one simp del: map_append sum_list_append)
  have "colgroup_invariant t'"
  proof (cases "colgroup t")
    case None
    with eq True i have "colgroup t' = None"
      by (auto simp: deleteColumn_def deleteColumn_rows_ok)
    then show ?thesis by (simp add: colgroup_invariant_def)
  next
    case (Some cg)
    with inv n have len: "length cg = length (cells r)" by (simp add: colgroup_invariant_def)
    show ?thesis
    proof (cases "i < int (length cg)")
      case lt: True
      with eq True i Some have "\<exists>cg'. colgroup t' = Some cg' \<and> length cg' = length cg - 1"
        by (auto simp: deleteColumn_def deleteColumn_rows_ok Let_def)
      with n' len lt i show ?thesis by (auto simp: colgroup_invariant_def)
    next
      case ge: False
      with eq True i Some have "colgroup t' = Some cg"
        by (auto simp: deleteColumn_def deleteColumn_rows_ok)
      with n' len ge i show ?thesis by (auto simp: colgroup_invariant_def)
    qed
  qed
  with eq show ?thesis by blast
qed

lemma mouse_down_createTable:
  "onEditorMouseDown DEFAULTS (stubCellGeometry createTable 100 30) createTable idle (mouse_at 0 0 98 10)
     = (\<lparr>rows = [\<lparr>cells = [text_cell ''A1'', text_cell ''B1'', text_cell ''C1''], style_height = Some 30\<rparr>,
               \<lparr>cells = [text_cell ''A2'', text_cell ''B2'', text_cell ''C2''], style_height = Some 30\<rparr>],
         colgroup = Some [Some 100, Some 100, Some 100], tableLayout_fixed = True,
         style_width = Some 300\<rparr>,
        \<lparr>drag = Some \<lparr>edge = Col, colIndex = 0, rowIndex = 0, startX = 98, startY = 10,
                       colWidths = [100, 100, 100], rowHeights = [30, 30],
                       tableWidth = 300, tableHeight = 60\<rparr>,
         overlay = True, contextMenu = None, contextCell = None\<rparr>)"
  by (simp add: onEditorMouseDown_def detectEdge_def lookup_cell_def mouse_at_def createTable_def
        stubCellGeometry_def DEFAULTS_def getCellColIndex_def colSpan_or_1_def text_cell_def
        getColumnWidths_def getRowHeights_def applyColumnWidths_def applyRowHeights_def
        sync_cols_def set_px_def idle_def upt_rec)

lemma mouse_down_ragged_table:
  "onEditorMouseDown DEFAULTS (stubCellGeometry ragged_table 100 30) ragged_table idle (mouse_at 1 2 298 40)
     = (\<lparr>rows = [\<lparr>cells = [text_cell ''A1'', text_cell ''B1''], style_height = Some 30\<rparr>,
               \<lparr>cells = [text_cell ''A2'', text_cell ''B2'', text_cell ''C2''], style_height = Some 30\<rparr>],
         colgroup = Some [Some 100, Some 100], tableLayout_fixed = True,
         style_width = Some 200\<rparr>,
        \<lparr>drag = Some \<lparr>edge = Col, colIndex = 2, rowIndex = 1, startX = 298, startY = 40,
                       colWidths = [100, 100], rowHeights = [30, 30],
                       tableWidth = 200, tableHeight = 60\<rparr>,
         overlay = True, contextMenu = None, contextCell = None\<rparr>)"
  by (simp add: onEditorMouseDown_def detectEdge_def lookup_cell_def mouse_at_def ragged_table_def
        stubCellGeometry_def DEFAULTS_def getCellColIndex_def colSpan_or_1_def text_cell_def
        getColumnWidths_def getRowHeights_def applyColumnWidths_def applyRowHeights_def
        sync_cols_def set_px_def idle_def upt_rec)




lemma contextMenu_dismissContextMenu: "contextMenu (dismissContextMenu st) = None"
  by (cases "contextMenu st") (simp_all add: dismissContextMenu_def)

lemma insertRow_total:
  assumes "0 \<le> i"
  shows "\<exists>t'. insertRow t i pos = Inr t'"
  using assms by (auto simp: insertRow_def table_insertRow_def Let_def min_def)

lemma deleteRow_total:
  assumes "0 \<le> i" and "i < int (length (rows t))"
  shows "\<exists>t'. deleteRow t i = Inr t'"
  using assms by (auto simp: deleteRow_def table_deleteRow_def)

lemma deleteColumn_total:
  assumes "0 \<le> i"
  shows "\<exists>t'. deleteColumn opts t i = Inr t'"
proof (cases "1 < getColumnCount t")
  case True
  from deleteColumn_rows_of[OF assms True, of opts] show ?thesis by blast
next
  case False
  then show ?thesis by (simp add: deleteColumn_def)
qed

lemma insertColumn_total:
  assumes "0 \<le> i"
  shows "\<exists>t'. insertColumn opts lay t i pos = Inr t'"
  using insertColumn_ok[OF assms, of opts lay t pos] by blast

lemma run_action_menu_items:
  assumes "r < length (rows t)" and "it \<in> set (menu_items t r c)"
  shows "\<exists>t'. run_action opts lay t (action it) = Inr t'"
proof -
  have ic: "\<And>pos. \<exists>t'. map_sum id Some (insertColumn opts lay t (int (getCellColIndex t r c)) pos) = Inr t'"
  proof -
    fix pos
    from insertColumn_total[of "int (getCellColIndex t r c)" opts lay t pos]
    obtain t' where "insertColumn opts lay t (int (getCellColIndex t r c)) pos = Inr t'" by auto
    then show "\<exists>t'. map_sum id Some (insertColumn opts lay t (int (getCellColIndex t r c)) pos) = Inr t'"
      by simp
  qed
  have dc: "\<exists>t'. map_sum id Some (deleteColumn opts t (int (getCellColIndex t r c))) = Inr t'"
  proof -
    from deleteColumn_total[of "int (getCellColIndex t r c)" opts t]
    obtain t' where "deleteColumn opts t (int (getCellColIndex t r c)) = Inr t'" by auto
    then show ?thesis by simp
  qed
  have ir: "\<And>pos. \<exists>t'. map_sum id Some (insertRow t (int r) pos) = Inr t'"
  proof -
    fix pos
    from insertRow_total[of "int r" t pos]
    obtain t' where "insertRow t (int r) pos = Inr t'" by auto
    then show "\<exists>t'. map_sum id Some (insertRow t (int r) pos) = Inr t'" by simp
  qed
  have dr: "\<exists>t'. map_sum id Some (deleteRow t (int r)) = Inr t'"
  proof -
    from deleteRow_total[of "int r" t] assms(1)
    obtain t' where "deleteRow t (int r) = Inr t'" by auto
    then show ?thesis by simp
  qed
  from assms(2) ic dc ir dr show ?thesis
    by (auto simp: menu_items_def Let_def run_action_def)
qed

lemma listener_of_rendered:
  "MenuItem l d (Some a) \<in> set (concat (map render_item its))
     \<Longrightarrow> \<exists>it \<in> set its. action it = a"
  by (induction its) (auto simp: render_item_def split: if_splits)

lemma scan_cells:
  "scan_tags None (concat (replicate n ''<td><br></td>'') @ rest)
     = concat (replicate n [''td'', ''br'', ''/td'']) @ scan_tags None rest"
  by (induction n) simp_all

lemma scan_rows:
  "scan_tags None (concat (replicate n (''<tr>'' @ concat (replicate k ''<td><br></td>'') @ ''</tr>'')) @ rest)
     = concat (replicate n ([''tr''] @ concat (replicate k [''td'', ''br'', ''/td'']) @ [''/tr'']))
         @ scan_tags None rest"
proof (induction n)
  case 0
  then show ?case by simp
next
  case (Suc n)
  have "scan_tags None (''<tr>'' @ concat (replicate k ''<td><br></td>'') @ ''</tr>'' @
          concat (replicate n (''<tr>'' @ concat (replicate k ''<td><br></td>'') @ ''</tr>'')) @ rest)
        = ''tr'' # concat (replicate k [''td'', ''br'', ''/td'']) @ ''/tr''
            # scan_tags None
                (concat (replicate n (''<tr>'' @ concat (replicate k ''<td><br></td>'') @ ''</tr>'')) @ rest)"
    by (simp add: scan_cells)
  with Suc show ?case by simp
qed

lemma markup_tags_table:
  "markup_tags (''<table><tbody>''
       @ concat (replicate n (''<tr>'' @ concat (replicate k ''<td><br></td>'') @ ''</tr>''))
       @ ''</tbody></table>'')
     = [''table'', ''tbody'']
         @ concat (replicate n ([''tr''] @ concat (replicate k [''td'', ''br'', ''/td'']) @ [''/tr'']))
         @ [''/tbody'', ''/table'']"
proof -
  have "scan_tags None (concat (replicate n (''<tr>'' @ concat (replicate k ''<td><br></td>'') @ ''</tr>''))
          @ ''</tbody></table>'')
        = concat (replicate n ([''tr''] @ concat (replicate k [''td'', ''br'', ''/td'']) @ [''/tr'']))
            @ [''/tbody'', ''/table'']"
    by (simp only: scan_rows) simp
  then show ?thesis by (simp add: markup_tags_def)
qed

lemma count_list_concat_replicate:
  "count_list (concat (replicate n xs)) a = n * count_list xs a"
  by (induction n) simp_all



lemma colSpan_or_1_spec: "colSpan_or_1 td = spec_span (colSpan td)"
  by (simp add: colSpan_or_1_def spec_span_def)

lemma rowSpan_or_1_spec: "rowSpan_or_1 td = spec_span (rowSpan td)"
  by (simp add: rowSpan_or_1_def spec_span_def)

lemma sum_spans_spec: "sum_list (map colSpan_or_1 tds) = spec_columns tds"
  by (induction tds) (simp_all add: colSpan_or_1_spec)

lemma sum_spans_before_spec:
  "sum_list (map colSpan_or_1 (take c tds)) = spec_column_index tds c"
proof (induction tds c rule: spec_column_index.induct)
  case (3 td tds c)
  then show ?case by (simp add: colSpan_or_1_spec)
qed simp_all

lemma getCellColIndex_spec: "getCellColIndex t r c = spec_column_index (cells (rows t ! r)) c"
  by (simp add: getCellColIndex_def sum_spans_before_spec)

lemma getColumnCount_spec:
  "rows t = firstRow # rest \<Longrightarrow> getColumnCount t = spec_columns (cells firstRow)"
  by (simp add: getColumnCount_def sum_spans_spec)

section \<open>Properties\<close>

text \<open>
  C1. For every table and every cell index \<open>i \<ge> 0\<close>, \<^verbatim>\<open>insertColumn(table, i, 'after')\<close>
  returns normally, keeps the rows, makes every row one cell longer, and puts the new blank
  cell right after the cell that was at index \<open>i\<close>, or at the end of a row that is shorter.
  When the table has a \<^verbatim>\<open>colgroup\<close> it gets one more child, at the same clamped position;
  a table without one stays without.
\<close>

theorem insertColumn_after_spec:
  assumes "0 \<le> i"
  shows "\<exists>t'. insertColumn opts lay t i After = Inr t' \<and>
           length (rows t') = length (rows t) \<and>
           (\<forall>r < length (rows t).
              length (cells (rows t' ! r)) = length (cells (rows t ! r)) + 1 \<and>
              cells (rows t' ! r) =
                take (min (nat i + 1) (length (cells (rows t ! r)))) (cells (rows t ! r))
                  @ br_cell # drop (min (nat i + 1) (length (cells (rows t ! r)))) (cells (rows t ! r))) \<and>
           (colgroup t = None \<longrightarrow> colgroup t' = None) \<and>
           (\<forall>cg. colgroup t = Some cg \<longrightarrow>
              (\<exists>cg'. colgroup t' = Some cg' \<and> length cg' = length cg + 1 \<and>
                 cg' = take (min (nat i + 1) (length cg)) cg
                         @ set_px None (Some (minColumnWidth opts))
                         # drop (min (nat i + 1) (length cg)) cg))"
proof -
  have k: "0 \<le> i + 1" using assms by simp
  have n: "nat (i + 1) = nat i + 1" using assms by simp
  show ?thesis
    by (cases "colgroup t")
       (simp_all add: insertColumn_def insertColumn_rows_ok[OF k] colgroup_insert_clamped[OF k] n)
qed

theorem insertColumn_after_witness:
  "(0::int) \<le> 1 \<and>
   (\<exists>t'. insertColumn DEFAULTS (stubCellGeometry createTable 100 30)
            (createTable\<lparr>colgroup := Some [Some 100, Some 100, Some 100]\<rparr>) 1 After = Inr t' \<and>
         map (map innerHTML \<circ> cells) (rows t')
           = [[''A1'', ''B1'', ''<br>'', ''C1''], [''A2'', ''B2'', ''<br>'', ''C2'']] \<and>
         colgroup t' = Some [Some 100, Some 100, Some 30, Some 100])"
proof -
  have h: "(0::int) \<le> 1" by simp
  from insertColumn_after_spec[OF h, of DEFAULTS "stubCellGeometry createTable 100 30"
       "createTable\<lparr>colgroup := Some [Some 100, Some 100, Some 100]\<rparr>"]
  obtain t' where
    eq: "insertColumn DEFAULTS (stubCellGeometry createTable 100 30)
           (createTable\<lparr>colgroup := Some [Some 100, Some 100, Some 100]\<rparr>) 1 After = Inr t'"
    by blast
  then show ?thesis
    by (auto simp: insertColumn_def insertCell_def colgroup_insert_def set_px_def createTable_def
          DEFAULTS_def text_cell_def br_cell_def stubCellGeometry_def)
qed

text \<open>
  C4. For every table with \<open>M\<close> rows and every index \<open>i\<close> of one of its rows,
  \<^verbatim>\<open>deleteRow\<close> leaves the table unchanged when \<open>M = 1\<close>, and otherwise returns the table
  without row \<open>i\<close>, which has \<open>M - 1\<close> rows.
\<close>

theorem deleteRow_floor:
  assumes "0 \<le> i" and "i < int (length (rows t))"
  shows "(length (rows t) = 1 \<longrightarrow> deleteRow t i = Inr t) \<and>
         (length (rows t) \<noteq> 1 \<longrightarrow>
            (\<exists>t'. deleteRow t i = Inr t' \<and> length (rows t') = length (rows t) - 1
                 \<and> rows t' = take (nat i) (rows t) @ drop (Suc (nat i)) (rows t)))"
  using assms by (auto simp: deleteRow_def table_deleteRow_def)

theorem deleteRow_floor_witness:
  "(0::int) \<le> 0 \<and> (0::int) < int (length (rows createTable)) \<and>
   length (rows createTable) \<noteq> 1 \<and>
   (\<exists>t'. deleteRow createTable 0 = Inr t' \<and> length (rows t') = 1 \<and>
      (\<exists>t''. deleteRow t' 0 = Inr t'' \<and> t'' = t'))"
proof -
  have h1: "(0::int) \<le> 0" by simp
  have h2: "(0::int) < int (length (rows createTable))" by (simp add: createTable_def)
  from deleteRow_floor[OF h1 h2] have
    "length (rows createTable) \<noteq> 1 \<longrightarrow>
       (\<exists>t'. deleteRow createTable 0 = Inr t' \<and> length (rows t') = length (rows createTable) - 1)"
    by blast
  moreover have n: "length (rows createTable) = 2" by (simp add: createTable_def)
  ultimately obtain t' where t': "deleteRow createTable 0 = Inr t'" "length (rows t') = 1"
    by auto
  have h3: "(0::int) < int (length (rows t'))" using t'(2) by simp
  from deleteRow_floor[OF h1 h3] t'(2) have "deleteRow t' 0 = Inr t'" by simp
  with t' n h1 h2 show ?thesis by simp
qed

text \<open>
  C3 (as amended). For every table with \<open>N\<close> visual columns and every index \<open>i \<ge> 0\<close>,
  \<^verbatim>\<open>deleteColumn\<close> leaves the table unchanged when \<open>N \<le> 1\<close>. Otherwise it returns
  normally, removes the cell at index \<open>i\<close> from every row that has one and leaves the other
  rows as they are; the visual column count becomes \<open>N - 1\<close> when the first row has a cell
  at index \<open>i\<close> and that cell spans one column.
\<close>

theorem deleteColumn_spec:
  assumes "0 \<le> i"
  shows "(getColumnCount t \<le> 1 \<longrightarrow> deleteColumn opts t i = Inr t) \<and>
         (1 < getColumnCount t \<longrightarrow>
            (\<exists>t'. deleteColumn opts t i = Inr t' \<and>
               length (rows t') = length (rows t) \<and>
               (\<forall>r < length (rows t).
                  cells (rows t' ! r) =
                    (if nat i < length (cells (rows t ! r))
                     then take (nat i) (cells (rows t ! r)) @ drop (Suc (nat i)) (cells (rows t ! r))
                     else cells (rows t ! r))) \<and>
               (\<forall>firstRow rest.
                  rows t = firstRow # rest \<and> nat i < length (cells firstRow) \<and>
                  colSpan_or_1 (cells firstRow ! nat i) = 1
                  \<longrightarrow> getColumnCount t' = getColumnCount t - 1)))"
proof (intro conjI impI)
  assume "getColumnCount t \<le> 1"
  then show "deleteColumn opts t i = Inr t" by (simp add: deleteColumn_def)
next
  assume n: "1 < getColumnCount t"
  from deleteColumn_rows_of[OF assms n, of opts] obtain t' where
    eq: "deleteColumn opts t i = Inr t'" and
    rs: "rows t' = map (\<lambda>r. if nat i < length (cells r)
                               then r\<lparr>cells := take (nat i) (cells r) @ drop (Suc (nat i)) (cells r)\<rparr>
                               else r) (rows t)"
    by blast
  have len: "length (rows t') = length (rows t)" using rs by simp
  have each: "\<forall>r < length (rows t).
                  cells (rows t' ! r) =
                    (if nat i < length (cells (rows t ! r))
                     then take (nat i) (cells (rows t ! r)) @ drop (Suc (nat i)) (cells (rows t ! r))
                     else cells (rows t ! r))"
    using rs by simp
  have cnt: "\<forall>firstRow rest.
                  rows t = firstRow # rest \<and> nat i < length (cells firstRow) \<and>
                  colSpan_or_1 (cells firstRow ! nat i) = 1
                  \<longrightarrow> getColumnCount t' = getColumnCount t - 1"
  proof (intro allI impI)
    fix firstRow rest
    assume a: "rows t = firstRow # rest \<and> nat i < length (cells firstRow) \<and>
                  colSpan_or_1 (cells firstRow ! nat i) = 1"
    from sum_list_without_nth[of "nat i" "cells firstRow" colSpan_or_1] a
    have "sum_list (map colSpan_or_1 (take (nat i) (cells firstRow) @ drop (Suc (nat i)) (cells firstRow))) + 1
            = sum_list (map colSpan_or_1 (cells firstRow))"
      by simp
    with a rs show "getColumnCount t' = getColumnCount t - 1"
      by (simp add: getColumnCount_def)
  qed
  from eq len each cnt
  show "\<exists>t'. deleteColumn opts t i = Inr t' \<and>
               length (rows t') = length (rows t) \<and>
               (\<forall>r < length (rows t).
                  cells (rows t' ! r) =
                    (if nat i < length (cells (rows t ! r))
                     then take (nat i) (cells (rows t ! r)) @ drop (Suc (nat i)) (cells (rows t ! r))
                     else cells (rows t ! r))) \<and>
               (\<forall>firstRow rest.
                  rows t = firstRow # rest \<and> nat i < length (cells firstRow) \<and>
                  colSpan_or_1 (cells firstRow ! nat i) = 1
                  \<longrightarrow> getColumnCount t' = getColumnCount t - 1)"
    by blast
qed

theorem deleteColumn_witness:
  "(0::int) \<le> 1 \<and> 1 < getColumnCount createTable \<and>
   (\<exists>t'. deleteColumn DEFAULTS createTable 1 = Inr t' \<and>
      map (map innerHTML \<circ> cells) (rows t') = [[''A1'', ''C1''], [''A2'', ''C2'']] \<and>
      getColumnCount t' = 2) \<and>
   getColumnCount one_column_table \<le> 1 \<and>
   deleteColumn DEFAULTS one_column_table 1 = Inr one_column_table"
proof -
  have h: "(0::int) \<le> 1" by simp
  have n: "getColumnCount createTable = 3"
    by (simp add: getColumnCount_def createTable_def colSpan_or_1_def text_cell_def)
  have n1: "getColumnCount one_column_table \<le> 1"
    by (simp add: getColumnCount_def one_column_table_def colSpan_or_1_def text_cell_def)
  from deleteColumn_spec[OF h, of createTable DEFAULTS] n obtain t' where
    eq: "deleteColumn DEFAULTS createTable 1 = Inr t'"
    by auto
  then have "map (map innerHTML \<circ> cells) (rows t') = [[''A1'', ''C1''], [''A2'', ''C2'']] \<and>
      getColumnCount t' = 2"
    by (auto simp: deleteColumn_def deleteCell_def getColumnCount_def createTable_def
          colSpan_or_1_def text_cell_def)
  moreover from deleteColumn_spec[OF h, of one_column_table DEFAULTS] n1
  have "deleteColumn DEFAULTS one_column_table 1 = Inr one_column_table" by blast
  ultimately show ?thesis using h n n1 eq by simp
qed

text \<open>
  With \<open>N - 1\<close> columns promised after every deletion, the statement fails on a table whose
  first row is a single cell spanning both columns: the first row has no cell at index 1 and
  is skipped, as rows with fewer cells are, so the column count stays at 2.
\<close>

theorem deleteColumn_spanned_counterexample:
  "getColumnCount spanned_table = 2 \<and>
   deleteColumn DEFAULTS spanned_table 1 = Inr spanned_table_deleted \<and>
   getColumnCount spanned_table_deleted \<noteq> 2 - 1"
  by (simp add: getColumnCount_def spanned_table_def spanned_table_deleted_def deleteColumn_def
        deleteCell_def colSpan_or_1_def text_cell_def)

text \<open>
  C6. The mutators do raise on some indices: \<^verbatim>\<open>deleteRow\<close> passes its index to
  \<^verbatim>\<open>table.deleteRow\<close> unchecked, and an index below \<open>-1\<close> reaches \<^verbatim>\<open>insertRow\<close>,
  \<^verbatim>\<open>insertCell\<close> and \<^verbatim>\<open>deleteCell\<close> because only the upper bound is clamped or tested.
  On the two-row table of the tests each of these calls ends in \<^verbatim>\<open>IndexSizeError\<close>.
\<close>

theorem mutation_throws_on_bad_index:
  "deleteRow createTable 2 = Inl IndexSizeError \<and>
   deleteRow createTable (-2) = Inl IndexSizeError \<and>
   insertRow createTable (-2) Before = Inl IndexSizeError \<and>
   insertColumn DEFAULTS (stubCellGeometry createTable 100 30) createTable (-2) Before = Inl IndexSizeError \<and>
   deleteColumn DEFAULTS createTable (-2) = Inl IndexSizeError"
  by (simp add: deleteRow_def table_deleteRow_def insertRow_def table_insertRow_def
        insertColumn_def insertCell_def deleteColumn_def deleteCell_def getColumnCount_def
        colSpan_or_1_def createTable_def text_cell_def)

text \<open>
  C5 (as amended). Applying the snapshot widths at drag start gives the table a
  \<^verbatim>\<open>colgroup\<close> with as many children as the table has visual columns. That equality is
  kept by resizing a column whose index is below the visual column count, by
  \<^verbatim>\<open>insertColumn\<close> at an index \<open>i \<ge> 0\<close> of a table with at least one row, and by
  \<^verbatim>\<open>deleteColumn\<close> at an index \<open>i \<ge> 0\<close> of a table whose first-row cells each span one
  column; both mutators return normally there.
\<close>

theorem colgroup_invariant_kept:
  "(detectEdge opts lay t e \<noteq> None \<longrightarrow>
      colgroup (fst (onEditorMouseDown opts lay t st e)) \<noteq> None \<and>
      colgroup_invariant (fst (onEditorMouseDown opts lay t st e))) \<and>
   (colgroup_invariant t \<and> ci < getColumnCount t \<longrightarrow>
      colgroup_invariant (resizeColumnDirect lay t ci w)) \<and>
   (colgroup_invariant t \<and> rows t \<noteq> [] \<and> 0 \<le> i \<longrightarrow>
      (\<exists>t'. insertColumn opts lay t i pos = Inr t' \<and> colgroup_invariant t')) \<and>
   (colgroup_invariant t \<and> plain_first_row t \<and> 0 \<le> i \<longrightarrow>
      (\<exists>t'. deleteColumn opts t i = Inr t' \<and> colgroup_invariant t'))"
  using invariant_mouse_down invariant_resize invariant_insertColumn invariant_deleteColumn
  by blast

theorem colgroup_invariant_witness:
  "detectEdge DEFAULTS (stubCellGeometry createTable 100 30) createTable (mouse_at 0 0 98 10) \<noteq> None \<and>
   colgroup (fst (onEditorMouseDown DEFAULTS (stubCellGeometry createTable 100 30) createTable idle (mouse_at 0 0 98 10)))
     = Some [Some 100, Some 100, Some 100] \<and>
   colgroup_invariant (fst (onEditorMouseDown DEFAULTS (stubCellGeometry createTable 100 30) createTable idle (mouse_at 0 0 98 10))) \<and>
   (1::nat) < getColumnCount (fst (onEditorMouseDown DEFAULTS (stubCellGeometry createTable 100 30) createTable idle (mouse_at 0 0 98 10))) \<and>
   colgroup_invariant
     (resizeColumnDirect (stubCellGeometry createTable 100 30)
        (fst (onEditorMouseDown DEFAULTS (stubCellGeometry createTable 100 30) createTable idle (mouse_at 0 0 98 10)))
        1 (Some 130)) \<and>
   rows (fst (onEditorMouseDown DEFAULTS (stubCellGeometry createTable 100 30) createTable idle (mouse_at 0 0 98 10))) \<noteq> [] \<and>
   (0::int) \<le> 1 \<and>
   (\<exists>t'. insertColumn DEFAULTS (stubCellGeometry createTable 100 30)
            (fst (onEditorMouseDown DEFAULTS (stubCellGeometry createTable 100 30) createTable idle (mouse_at 0 0 98 10)))
            1 After = Inr t' \<and> colgroup_invariant t') \<and>
   plain_first_row (fst (onEditorMouseDown DEFAULTS (stubCellGeometry createTable 100 30) createTable idle (mouse_at 0 0 98 10))) \<and>
   (\<exists>t'. deleteColumn DEFAULTS
            (fst (onEditorMouseDown DEFAULTS (stubCellGeometry createTable 100 30) createTable idle (mouse_at 0 0 98 10)))
            1 = Inr t' \<and> colgroup_invariant t')"
proof -
  let ?L = "stubCellGeometry createTable 100 30"
  let ?e = "mouse_at 0 0 98 10"
  let ?t = "fst (onEditorMouseDown DEFAULTS ?L createTable idle ?e)"
  have hit: "detectEdge DEFAULTS ?L createTable ?e \<noteq> None"
    by (simp add: detectEdge_def lookup_cell_def mouse_at_def createTable_def
          stubCellGeometry_def DEFAULTS_def)
  have cg: "colgroup ?t = Some [Some 100, Some 100, Some 100]"
    by (simp add: mouse_down_createTable)
  have n: "(1::nat) < getColumnCount ?t"
    by (simp add: mouse_down_createTable getColumnCount_def colSpan_or_1_def text_cell_def)
  have rs: "rows ?t \<noteq> []" by (simp add: mouse_down_createTable)
  have pl: "plain_first_row ?t"
    by (simp add: mouse_down_createTable plain_first_row_def colSpan_or_1_def text_cell_def)
  have i: "(0::int) \<le> 1" by simp
  from colgroup_invariant_kept[of DEFAULTS ?L createTable ?e idle] hit
  have inv: "colgroup_invariant ?t" by blast
  from colgroup_invariant_kept[of DEFAULTS ?L ?t ?e idle 1 "Some 130" 1 After] inv n rs pl i
  have "colgroup_invariant (resizeColumnDirect ?L ?t 1 (Some 130)) \<and>
        (\<exists>t'. insertColumn DEFAULTS ?L ?t 1 After = Inr t' \<and> colgroup_invariant t') \<and>
        (\<exists>t'. deleteColumn DEFAULTS ?t 1 = Inr t' \<and> colgroup_invariant t')"
    by blast
  with hit cg inv n rs pl i show ?thesis by blast
qed

text \<open>
  Without the side conditions the invariant is not kept by a resize: on a table whose second
  row is longer than the first, dragging the right edge of the last cell of the second row
  pads the
  \<^verbatim>\<open>colgroup\<close> to three children (the loop ``ensure we have enough col elements''), while
  the first row still has two columns.
\<close>

theorem colgroup_invariant_counterexample:
  "colgroup_invariant
     (fst (onEditorMouseDown DEFAULTS (stubCellGeometry ragged_table 100 30) ragged_table idle (mouse_at 1 2 298 40))) \<and>
   \<not> colgroup_invariant
     (onDocumentMouseMove DEFAULTS (stubCellGeometry ragged_table 100 30)
        (fst (onEditorMouseDown DEFAULTS (stubCellGeometry ragged_table 100 30) ragged_table idle (mouse_at 1 2 298 40)))
        (snd (onEditorMouseDown DEFAULTS (stubCellGeometry ragged_table 100 30) ragged_table idle (mouse_at 1 2 298 40)))
        (mouse_elsewhere 328 40))"
  by (simp only: mouse_down_ragged_table fst_conv snd_conv,
      simp add: colgroup_invariant_def getColumnCount_def colSpan_or_1_def
        text_cell_def onDocumentMouseMove_def resizeColumnDirect_def js_get_def clamp_min_def
        set_px_def mouse_elsewhere_def)




text \<open>
  C7. For every pointer position over a cell of the table and within the handle thickness
  of both the right and the bottom edge of that cell, \<^verbatim>\<open>detectEdge\<close> reports a hit; the
  hit is a corner exactly when the cell ends in the last visual column and in the last row
  of the table, and a column resize in every other case.
\<close>

theorem detectEdge_both_edges:
  assumes "target e = Some (r, c)"
    and "r < length (rows t)" and "c < length (cells (rows t ! r))"
    and "clientX e \<ge> cell_rect_right lay r c - handleSize opts"
    and "clientY e \<ge> cell_rect_bottom lay r c - handleSize opts"
  shows "\<exists>h. detectEdge opts lay t e = Some h \<and>
            (edge h = Corner \<longleftrightarrow> ends_in_last_column t r c \<and> ends_in_last_row t r c) \<and>
            (edge h \<noteq> Corner \<longrightarrow> edge h = Col)"
proof -
  let ?td = "cells (rows t ! r) ! c"
  obtain firstRow rest where rs: "rows t = firstRow # rest"
    using assms(2) by (cases "rows t") auto
  have look: "lookup_cell t r c = Some ?td"
    using assms(2,3) by (simp add: lookup_cell_def)
  have c: "(int (getCellColIndex t r c) + int (colSpan_or_1 ?td) = int (getColumnCount t))
             \<longleftrightarrow> ends_in_last_column t r c"
  proof -
    have "ends_in_last_column t r c \<longleftrightarrow>
            spec_column_index (cells (rows t ! r)) c + spec_span (colSpan ?td)
              = spec_columns (cells firstRow)"
      using assms(2,3) rs by (simp add: ends_in_last_column_def)
    moreover have "getCellColIndex t r c + colSpan_or_1 ?td
                     = spec_column_index (cells (rows t ! r)) c + spec_span (colSpan ?td)"
      by (simp only: getCellColIndex_spec colSpan_or_1_spec)
    moreover have "getColumnCount t = spec_columns (cells firstRow)"
      using rs by (rule getColumnCount_spec)
    ultimately show ?thesis by linarith
  qed
  have w: "(int r + int (rowSpan_or_1 ?td) = int (length (rows t)))
             \<longleftrightarrow> ends_in_last_row t r c"
  proof -
    have "ends_in_last_row t r c \<longleftrightarrow> r + spec_span (rowSpan ?td) = length (rows t)"
      using assms(2,3) by (simp add: ends_in_last_row_def)
    moreover have "rowSpan_or_1 ?td = spec_span (rowSpan ?td)" by (rule rowSpan_or_1_spec)
    ultimately show ?thesis by linarith
  qed
  show ?thesis
    using assms(1,4,5) look by (simp add: detectEdge_def Let_def c w)
qed

theorem detectEdge_both_edges_witness:
  "target (mouse_at 0 1 198 28) = Some (0, 1) \<and>
   (0::nat) < length (rows merged_table) \<and> (1::nat) < length (cells (rows merged_table ! 0)) \<and>
   clientX (mouse_at 0 1 198 28)
     \<ge> cell_rect_right (stubCellGeometry merged_table 100 30) 0 1 - handleSize DEFAULTS \<and>
   clientY (mouse_at 0 1 198 28)
     \<ge> cell_rect_bottom (stubCellGeometry merged_table 100 30) 0 1 - handleSize DEFAULTS \<and>
   ends_in_last_column merged_table 0 1 \<and> ends_in_last_row merged_table 0 1 \<and>
   (\<exists>h. detectEdge DEFAULTS (stubCellGeometry merged_table 100 30) merged_table (mouse_at 0 1 198 28)
          = Some h \<and> edge h = Corner) \<and>
   target (mouse_at 1 0 98 58) = Some (1, 0) \<and>
   (1::nat) < length (rows merged_table) \<and> (0::nat) < length (cells (rows merged_table ! 1)) \<and>
   clientX (mouse_at 1 0 98 58)
     \<ge> cell_rect_right (stubCellGeometry merged_table 100 30) 1 0 - handleSize DEFAULTS \<and>
   clientY (mouse_at 1 0 98 58)
     \<ge> cell_rect_bottom (stubCellGeometry merged_table 100 30) 1 0 - handleSize DEFAULTS \<and>
   \<not> ends_in_last_column merged_table 1 0 \<and> ends_in_last_row merged_table 1 0 \<and>
   (\<exists>h. detectEdge DEFAULTS (stubCellGeometry merged_table 100 30) merged_table (mouse_at 1 0 98 58)
          = Some h \<and> edge h = Col)"
proof -
  let ?L = "stubCellGeometry merged_table 100 30"
  have a1: "target (mouse_at 0 1 198 28) = Some (0, 1)" by (simp add: mouse_at_def)
  have a2: "(0::nat) < length (rows merged_table)" by (simp add: merged_table_def)
  have a3: "(1::nat) < length (cells (rows merged_table ! 0))" by (simp add: merged_table_def)
  have a4: "clientX (mouse_at 0 1 198 28) \<ge> cell_rect_right ?L 0 1 - handleSize DEFAULTS"
    by (simp add: mouse_at_def stubCellGeometry_def DEFAULTS_def)
  have a5: "clientY (mouse_at 0 1 198 28) \<ge> cell_rect_bottom ?L 0 1 - handleSize DEFAULTS"
    by (simp add: mouse_at_def stubCellGeometry_def DEFAULTS_def)
  have a6: "ends_in_last_column merged_table 0 1"
    by (simp add: ends_in_last_column_def merged_table_def spec_span_def)
  have a7: "ends_in_last_row merged_table 0 1"
    by (simp add: ends_in_last_row_def merged_table_def spec_span_def)
  have b1: "target (mouse_at 1 0 98 58) = Some (1, 0)" by (simp add: mouse_at_def)
  have b2: "(1::nat) < length (rows merged_table)" by (simp add: merged_table_def)
  have b3: "(0::nat) < length (cells (rows merged_table ! 1))" by (simp add: merged_table_def)
  have b4: "clientX (mouse_at 1 0 98 58) \<ge> cell_rect_right ?L 1 0 - handleSize DEFAULTS"
    by (simp add: mouse_at_def stubCellGeometry_def DEFAULTS_def)
  have b5: "clientY (mouse_at 1 0 98 58) \<ge> cell_rect_bottom ?L 1 0 - handleSize DEFAULTS"
    by (simp add: mouse_at_def stubCellGeometry_def DEFAULTS_def)
  have b6: "\<not> ends_in_last_column merged_table 1 0"
    by (simp add: ends_in_last_column_def merged_table_def spec_span_def)
  have b7: "ends_in_last_row merged_table 1 0"
    by (simp add: ends_in_last_row_def merged_table_def spec_span_def)
  from detectEdge_both_edges[OF a1 a2 a3 a4 a5] a6 a7
  have c1: "\<exists>h. detectEdge DEFAULTS ?L merged_table (mouse_at 0 1 198 28) = Some h \<and> edge h = Corner"
    by blast
  from detectEdge_both_edges[OF b1 b2 b3 b4 b5] b6
  have c2: "\<exists>h. detectEdge DEFAULTS ?L merged_table (mouse_at 1 0 98 58) = Some h \<and> edge h = Col"
    by blast
  from a1 a2 a3 a4 a5 a6 a7 c1 b1 b2 b3 b4 b5 b6 b7 c2 show ?thesis by blast
qed

text \<open>
  C9. Two configurations that agree on \<open>handleSize\<close>, \<open>minColumnWidth\<close> and
  \<open>minRowHeight\<close>, whatever their \<open>minTableWidth\<close> and \<open>minTableHeight\<close>, give the same
  result in every operation that reads the configuration: edge detection, drag start, drag
  move, \<^verbatim>\<open>insertColumn\<close>, \<^verbatim>\<open>deleteColumn\<close> and the menu actions. (\<^verbatim>\<open>insertRow\<close>,
  \<^verbatim>\<open>deleteRow\<close> and \<^verbatim>\<open>insertNewTable\<close> read no option at all and take none here.)
\<close>

theorem table_minimums_unused:
  assumes "handleSize o1 = handleSize o2"
    and "minColumnWidth o1 = minColumnWidth o2"
    and "minRowHeight o1 = minRowHeight o2"
  shows "detectEdge o1 lay t e = detectEdge o2 lay t e \<and>
         onEditorMouseDown o1 lay t st e = onEditorMouseDown o2 lay t st e \<and>
         onDocumentMouseMove o1 lay t st e = onDocumentMouseMove o2 lay t st e \<and>
         insertColumn o1 lay t i pos = insertColumn o2 lay t i pos \<and>
         deleteColumn o1 t i = deleteColumn o2 t i \<and>
         run_action o1 lay t a = run_action o2 lay t a \<and>
         item_mousedown o1 lay t st k = item_mousedown o2 lay t st k"
proof -
  have de: "detectEdge o1 lay t e = detectEdge o2 lay t e"
    unfolding detectEdge_def assms(1) by (rule refl)
  have ic: "\<And>i pos. insertColumn o1 lay t i pos = insertColumn o2 lay t i pos"
    unfolding insertColumn_def assms(2) by (rule refl)
  have dc: "\<And>i. deleteColumn o1 t i = deleteColumn o2 t i"
    unfolding deleteColumn_def assms(2) by (rule refl)
  have ra: "\<And>a. run_action o1 lay t a = run_action o2 lay t a"
    unfolding run_action_def ic dc by (rule refl)
  have md: "onEditorMouseDown o1 lay t st e = onEditorMouseDown o2 lay t st e"
    unfolding onEditorMouseDown_def de by (rule refl)
  have mm: "onDocumentMouseMove o1 lay t st e = onDocumentMouseMove o2 lay t st e"
    unfolding onDocumentMouseMove_def assms(2,3) by (rule refl)
  have im: "item_mousedown o1 lay t st k = item_mousedown o2 lay t st k"
    unfolding item_mousedown_def ra by (rule refl)
  from de md mm ic dc ra im show ?thesis by blast
qed


theorem table_minimums_unused_witness:
  "handleSize DEFAULTS = handleSize (DEFAULTS\<lparr>minTableWidth := 500, minTableHeight := 300\<rparr>) \<and>
   minColumnWidth DEFAULTS = minColumnWidth (DEFAULTS\<lparr>minTableWidth := 500, minTableHeight := 300\<rparr>) \<and>
   minRowHeight DEFAULTS = minRowHeight (DEFAULTS\<lparr>minTableWidth := 500, minTableHeight := 300\<rparr>) \<and>
   minTableWidth DEFAULTS \<noteq> minTableWidth (DEFAULTS\<lparr>minTableWidth := 500, minTableHeight := 300\<rparr>) \<and>
   minTableHeight DEFAULTS \<noteq> minTableHeight (DEFAULTS\<lparr>minTableWidth := 500, minTableHeight := 300\<rparr>) \<and>
   onEditorMouseDown DEFAULTS (stubCellGeometry createTable 100 30) createTable idle (mouse_at 1 2 298 58)
     = onEditorMouseDown (DEFAULTS\<lparr>minTableWidth := 500, minTableHeight := 300\<rparr>)
         (stubCellGeometry createTable 100 30) createTable idle (mouse_at 1 2 298 58) \<and>
   onDocumentMouseMove DEFAULTS (stubCellGeometry createTable 100 30) createTable
       (snd (onEditorMouseDown DEFAULTS (stubCellGeometry createTable 100 30) createTable idle (mouse_at 1 2 298 58)))
       (mouse_elsewhere 0 0)
     = onDocumentMouseMove (DEFAULTS\<lparr>minTableWidth := 500, minTableHeight := 300\<rparr>)
         (stubCellGeometry createTable 100 30) createTable
         (snd (onEditorMouseDown DEFAULTS (stubCellGeometry createTable 100 30) createTable idle (mouse_at 1 2 298 58)))
         (mouse_elsewhere 0 0)"
proof -
  let ?o2 = "DEFAULTS\<lparr>minTableWidth := 500, minTableHeight := 300\<rparr>"
  let ?L = "stubCellGeometry createTable 100 30"
  let ?s = "snd (onEditorMouseDown DEFAULTS ?L createTable idle (mouse_at 1 2 298 58))"
  have h: "handleSize DEFAULTS = handleSize ?o2" "minColumnWidth DEFAULTS = minColumnWidth ?o2"
    "minRowHeight DEFAULTS = minRowHeight ?o2"
    by simp_all
  have d: "minTableWidth DEFAULTS \<noteq> minTableWidth ?o2" "minTableHeight DEFAULTS \<noteq> minTableHeight ?o2"
    by (simp_all add: DEFAULTS_def)
  from table_minimums_unused[OF h, of ?L createTable "mouse_at 1 2 298 58" idle]
  have a: "onEditorMouseDown DEFAULTS ?L createTable idle (mouse_at 1 2 298 58)
             = onEditorMouseDown ?o2 ?L createTable idle (mouse_at 1 2 298 58)"
    by (rule conjunct1[OF conjunct2])
  from table_minimums_unused[OF h, of ?L createTable "mouse_elsewhere 0 0" ?s]
  have b: "onDocumentMouseMove DEFAULTS ?L createTable ?s (mouse_elsewhere 0 0)
             = onDocumentMouseMove ?o2 ?L createTable ?s (mouse_elsewhere 0 0)"
    by (rule conjunct1[OF conjunct2[OF conjunct2]])
  from h d a b show ?thesis by blast
qed

text \<open>
  C8 (as amended). A secondary click inside a table cell opens a context menu with exactly
  7 entries: insert column left and right, delete column, insert row above and below,
  delete row, delete table. Delete-column is disabled exactly when the table has at most
  one visual column and delete-row exactly when it has at most one row. Invoking any
  entry that has a listener runs its action without an exception and removes the menu.
\<close>

theorem context_menu_spec:
  assumes "target e = Some (r, c)" and "lookup_cell t r c = Some td"
  shows "\<exists>m. contextMenu (onContextMenu t st e) = Some m \<and>
           menu_entries m =
             [(''Insert Column Left'', False), (''Insert Column Right'', False),
              (''Delete Column'', getColumnCount t \<le> 1),
              (''Insert Row Above'', False), (''Insert Row Below'', False),
              (''Delete Row'', length (rows t) \<le> 1),
              (''Delete Table'', False)] \<and>
           length (menu_entries m) = 7 \<and>
           (\<forall>k l d a. k < length (menu_children m) \<and> menu_children m ! k = MenuItem l d (Some a)
              \<longrightarrow> (\<exists>t' st'. item_mousedown opts lay t (onContextMenu t st e) k = Inr (t', st') \<and>
                           contextMenu st' = None))"
proof -
  let ?m = "\<lparr>menu_left = clientX e, menu_top = clientY e,
             menu_children = concat (map render_item (menu_items t r c))\<rparr>"
  have r: "r < length (rows t)"
    using assms(2) by (simp add: lookup_cell_def split: if_splits)
  have m: "contextMenu (onContextMenu t st e) = Some ?m"
    using assms by (simp add: onContextMenu_def showContextMenu_def)
  have entries: "menu_entries ?m =
             [(''Insert Column Left'', False), (''Insert Column Right'', False),
              (''Delete Column'', getColumnCount t \<le> 1),
              (''Insert Row Above'', False), (''Insert Row Below'', False),
              (''Delete Row'', length (rows t) \<le> 1),
              (''Delete Table'', False)]"
    by (simp add: menu_entries_def menu_items_def render_item_def Let_def)
  have invoke: "\<forall>k l d a. k < length (menu_children ?m) \<and> menu_children ?m ! k = MenuItem l d (Some a)
              \<longrightarrow> (\<exists>t' st'. item_mousedown opts lay t (onContextMenu t st e) k = Inr (t', st') \<and>
                           contextMenu st' = None)"
  proof (intro allI impI)
    fix k l d a
    assume k: "k < length (menu_children ?m) \<and> menu_children ?m ! k = MenuItem l d (Some a)"
    then have "MenuItem l d (Some a) \<in> set (concat (map render_item (menu_items t r c)))"
      by (metis menu.select_convs(3) nth_mem)
    from listener_of_rendered[OF this] obtain it where
      it: "it \<in> set (menu_items t r c)" "action it = a" by blast
    from run_action_menu_items[OF r it(1), of opts lay] it(2)
    obtain t' where "run_action opts lay t a = Inr t'" by auto
    with k m have "item_mousedown opts lay t (onContextMenu t st e) k
                     = Inr (t', dismissContextMenu (onContextMenu t st e))"
      by (simp add: item_mousedown_def)
    then show "\<exists>t' st'. item_mousedown opts lay t (onContextMenu t st e) k = Inr (t', st') \<and>
                           contextMenu st' = None"
      by (simp add: contextMenu_dismissContextMenu)
  qed
  from m entries invoke show ?thesis by simp
qed


theorem context_menu_witness:
  "target (mouse_at 0 0 10 10) = Some (0, 0) \<and>
   lookup_cell one_column_table 0 0 = Some (text_cell ''C1'') \<and>
   (\<exists>m. contextMenu (onContextMenu one_column_table idle (mouse_at 0 0 10 10)) = Some m \<and>
        menu_entries m =
             [(''Insert Column Left'', False), (''Insert Column Right'', False),
              (''Delete Column'', True),
              (''Insert Row Above'', False), (''Insert Row Below'', False),
              (''Delete Row'', False),
              (''Delete Table'', False)] \<and>
        menu_children m ! 1 = MenuItem ''Insert Column Right'' False (Some (InsertColumn 0 After)) \<and>
        (\<exists>t' st'. item_mousedown DEFAULTS (stubCellGeometry one_column_table 100 30) one_column_table
                     (onContextMenu one_column_table idle (mouse_at 0 0 10 10)) 1 = Inr (t', st') \<and>
                  contextMenu st' = None))"
proof -
  let ?e = "mouse_at 0 0 10 10"
  have a1: "target ?e = Some (0, 0)" by (simp add: mouse_at_def)
  have a2: "lookup_cell one_column_table 0 0 = Some (text_cell ''C1'')"
    by (simp add: lookup_cell_def one_column_table_def)
  have n: "getColumnCount one_column_table \<le> 1" "\<not> length (rows one_column_table) \<le> 1"
    by (simp_all add: getColumnCount_def one_column_table_def colSpan_or_1_def text_cell_def)
  from context_menu_spec[OF a1 a2, of idle DEFAULTS "stubCellGeometry one_column_table 100 30"] obtain m where
    m: "contextMenu (onContextMenu one_column_table idle ?e) = Some m"
       "menu_entries m =
             [(''Insert Column Left'', False), (''Insert Column Right'', False),
              (''Delete Column'', getColumnCount one_column_table \<le> 1),
              (''Insert Row Above'', False), (''Insert Row Below'', False),
              (''Delete Row'', length (rows one_column_table) \<le> 1),
              (''Delete Table'', False)]"
       "\<forall>k l d a. k < length (menu_children m) \<and> menu_children m ! k = MenuItem l d (Some a)
              \<longrightarrow> (\<exists>t' st'. item_mousedown DEFAULTS (stubCellGeometry one_column_table 100 30) one_column_table
                                (onContextMenu one_column_table idle ?e) k = Inr (t', st') \<and>
                           contextMenu st' = None)"
    by blast
  have ch: "menu_children m =
              concat (map render_item (menu_items one_column_table 0 0))"
    using m(1) a1 a2 by (auto simp: onContextMenu_def showContextMenu_def)
  have k: "1 < length (menu_children m)"
    "menu_children m ! 1 = MenuItem ''Insert Column Right'' False (Some (InsertColumn 0 After))"
    by (simp_all add: ch menu_items_def render_item_def Let_def getCellColIndex_def)
  from m(3) k have
    "\<exists>t' st'. item_mousedown DEFAULTS (stubCellGeometry one_column_table 100 30) one_column_table
                 (onContextMenu one_column_table idle ?e) 1 = Inr (t', st') \<and>
              contextMenu st' = None"
    by blast
  with a1 a2 m(1,2) n k(2) show ?thesis by simp
qed

text \<open>
  A count of exactly 6 entries fails on the right-click of the tests (cell B1 of the
  two-row table): the menu has 7 entries, ``Delete Table'' being the seventh.
\<close>

theorem context_menu_six_counterexample:
  "map_option (length \<circ> menu_entries) (contextMenu (onContextMenu createTable idle (mouse_at 0 1 50 20)))
     = Some 7 \<and>
   map_option (length \<circ> menu_entries) (contextMenu (onContextMenu createTable idle (mouse_at 0 1 50 20)))
     \<noteq> Some 6"
  by (simp add: onContextMenu_def showContextMenu_def lookup_cell_def mouse_at_def createTable_def
        menu_entries_def menu_items_def render_item_def Let_def)

text \<open>
  C10. \<^verbatim>\<open>insertNewTable(rows, cols)\<close> returns the editor unchanged when
  \<^verbatim>\<open>getSelection\<close> is absent or returns \<^verbatim>\<open>null\<close>. With a selection at index \<open>i\<close> and
  non-negative counts it makes one paste, at \<open>i\<close>, of markup whose tags are a
  \<^verbatim>\<open>table\<close> with a \<^verbatim>\<open>tbody\<close> of \<open>rows\<close> rows, each of \<open>cols\<close> cells holding
  a \<^verbatim>\<open>br\<close>: \<open>rows * cols\<close> cells in all. The call without arguments is the 3 by 3 one.
\<close>

theorem insertNewTable_spec:
  "(getSelection q = None \<or> getSelection q = Some None
      \<longrightarrow> insertNewTable q n_rows n_cols = Inr q) \<and>
   (\<forall>i. getSelection q = Some (Some i) \<and> 0 \<le> n_rows \<and> 0 \<le> n_cols \<longrightarrow>
      (\<exists>html. insertNewTable q n_rows n_cols = Inr (q\<lparr>pasted := pasted q @ [(i, html)]\<rparr>) \<and>
         markup_tags html =
           [''table'', ''tbody'']
             @ concat (replicate (nat n_rows)
                 ([''tr''] @ concat (replicate (nat n_cols) [''td'', ''br'', ''/td'']) @ [''/tr'']))
             @ [''/tbody'', ''/table''] \<and>
         count_list (markup_tags html) ''tr'' = nat n_rows \<and>
         count_list (markup_tags html) ''td'' = nat n_rows * nat n_cols)) \<and>
   insertNewTable_default q = insertNewTable q 3 3"
proof (intro conjI impI allI)
  assume "getSelection q = None \<or> getSelection q = Some None"
  then show "insertNewTable q n_rows n_cols = Inr q"
    by (auto simp: insertNewTable_def)
next
  fix i
  assume a: "getSelection q = Some (Some i) \<and> 0 \<le> n_rows \<and> 0 \<le> n_cols"
  let ?html = "''<table><tbody>''
       @ concat (replicate (nat n_rows)
           (''<tr>'' @ concat (replicate (nat n_cols) ''<td><br></td>'') @ ''</tr>''))
       @ ''</tbody></table>''"
  have eq: "insertNewTable q n_rows n_cols = Inr (q\<lparr>pasted := pasted q @ [(i, ?html)]\<rparr>)"
    using a by (simp add: insertNewTable_def repeat_def dangerouslyPasteHTML_def)
  have tags: "markup_tags ?html =
           [''table'', ''tbody'']
             @ concat (replicate (nat n_rows)
                 ([''tr''] @ concat (replicate (nat n_cols) [''td'', ''br'', ''/td'']) @ [''/tr'']))
             @ [''/tbody'', ''/table'']"
    by (rule markup_tags_table)
  have tr: "count_list (markup_tags ?html) ''tr'' = nat n_rows"
    unfolding tags by (simp add: count_list_concat_replicate)
  have td: "count_list (markup_tags ?html) ''td'' = nat n_rows * nat n_cols"
    unfolding tags by (simp add: count_list_concat_replicate)
  from eq tags tr td
  show "\<exists>html. insertNewTable q n_rows n_cols = Inr (q\<lparr>pasted := pasted q @ [(i, html)]\<rparr>) \<and>
         markup_tags html =
           [''table'', ''tbody'']
             @ concat (replicate (nat n_rows)
                 ([''tr''] @ concat (replicate (nat n_cols) [''td'', ''br'', ''/td'']) @ [''/tr'']))
             @ [''/tbody'', ''/table''] \<and>
         count_list (markup_tags html) ''tr'' = nat n_rows \<and>
         count_list (markup_tags html) ''td'' = nat n_rows * nat n_cols"
    by blast
next
  show "insertNewTable_default q = insertNewTable q 3 3"
    by (simp add: insertNewTable_default_def)
qed

theorem insertNewTable_witness:
  "getSelection (quill_with_selection 5) = Some (Some 5) \<and> (0::int) \<le> 3 \<and>
   (\<exists>html. insertNewTable_default (quill_with_selection 5)
              = Inr ((quill_with_selection 5)\<lparr>pasted := [(5, html)]\<rparr>) \<and>
           count_list (markup_tags html) ''tr'' = 3 \<and>
           count_list (markup_tags html) ''td'' = 9) \<and>
   getSelection quill_without_selection = Some None \<and>
   insertNewTable quill_without_selection 4 5 = Inr quill_without_selection \<and>
   getSelection createMockQuill = None \<and>
   insertNewTable createMockQuill 4 5 = Inr createMockQuill"
proof -
  have s1: "getSelection (quill_with_selection 5) = Some (Some 5)"
    by (simp add: quill_with_selection_def)
  have s2: "getSelection quill_without_selection = Some None"
    by (simp add: quill_without_selection_def)
  have s3: "getSelection createMockQuill = None"
    by (simp add: createMockQuill_def)
  have p: "pasted (quill_with_selection 5) = []" by (simp add: quill_with_selection_def)
  from insertNewTable_spec[of "quill_with_selection 5" 3 3] s1 p
  have c1: "\<exists>html. insertNewTable_default (quill_with_selection 5)
              = Inr ((quill_with_selection 5)\<lparr>pasted := [(5, html)]\<rparr>) \<and>
           count_list (markup_tags html) ''tr'' = 3 \<and>
           count_list (markup_tags html) ''td'' = 9"
    by auto
  from insertNewTable_spec[of quill_without_selection 4 5] s2
  have c2: "insertNewTable quill_without_selection 4 5 = Inr quill_without_selection" by blast
  from insertNewTable_spec[of createMockQuill 4 5] s3
  have c3: "insertNewTable createMockQuill 4 5 = Inr createMockQuill" by blast
  from s1 s2 s3 c1 c2 c3 show ?thesis by simp
qed

end
